theory Spec2Isabelle
  imports Complex_Main
begin

section \<open>Numbers, vectors and the library functions the gallery calls\<close>

text \<open>
  The gallery is JavaScript on top of three.js. Every JavaScript number is modelled as an
  exact \<^typ>\<open>real\<close>; rounding of IEEE doubles is not part of the model. An array index is
  an \<^typ>\<open>int\<close> (the callers pass \<open>currentIndex - 1\<close>, so it can be negative). An item
  identifier is a \<^typ>\<open>string\<close>, and a JavaScript object used as a dictionary keyed by
  identifiers is a map.

  Three functions of three.js are used by the code under study; they are written here as
  three.js r159 defines them.
\<close>

type_synonym vec3 = "real \<times> real \<times> real"

definition lerp :: "real \<Rightarrow> real \<Rightarrow> real \<Rightarrow> real" where
  \<comment> \<open>\<open>THREE.MathUtils.lerp(x, y, t)\<close>: \<open>(1 - t) * x + t * y\<close>\<close>
  "lerp x y t = (1 - t) * x + t * y"

definition lerpVectors :: "vec3 \<Rightarrow> vec3 \<Rightarrow> real \<Rightarrow> vec3" where
  \<comment> \<open>\<open>Vector3.lerpVectors(v1, v2, alpha)\<close>: componentwise \<open>v1 + (v2 - v1) * alpha\<close>\<close>
  "lerpVectors v1 v2 alpha =
     (case v1 of (x1, y1, z1) \<Rightarrow> case v2 of (x2, y2, z2) \<Rightarrow>
        (x1 + (x2 - x1) * alpha, y1 + (y2 - y1) * alpha, z1 + (z2 - z1) * alpha))"

definition clamp_between :: "real \<Rightarrow> real \<Rightarrow> real \<Rightarrow> real" where
  \<comment> \<open>the idiom \<open>Math.max(lo, Math.min(hi, v))\<close>\<close>
  "clamp_between lo hi v = max lo (min hi v)"

definition or_number :: "real option \<Rightarrow> real \<Rightarrow> real" where
  \<comment> \<open>\<open>a || b\<close> where \<open>a\<close> is a number or \<open>undefined\<close>: \<open>undefined\<close> and \<open>0\<close> are falsy\<close>
  "or_number a b = (case a of None \<Rightarrow> b | Some v \<Rightarrow> if v = 0 then b else v)"


section \<open>Controls: the camera rig\<close>

text \<open>
  \<open>js/controls.js\<close> holds two versions of the class \<open>Controls\<close>. Their
  \<open>animateCameraTo\<close> and \<open>easeInOutCubic\<close> are the same text; they differ in the
  constructor (\<open>isAnimatingCamera\<close> starts \<open>true\<close> in the first, \<open>false\<close> in the second)
  and in \<open>updateCameraForModel\<close>. The version is a tag in the state.

  The closure \<open>animate\<close> that \<open>animateCameraTo\<close> hands to \<open>requestAnimationFrame\<close> is a
  \<open>transition\<close> record of the variables it captures; \<open>frames\<close> is the browser's queue of
  such pending callbacks. \<open>orbitControls.update()\<close> is three.js code and is left out.
\<close>

datatype controls_version = ZoomDisabled | OrbitZoom

record transition =
  startPosition :: vec3
  startLookAt :: vec3
  startTime :: real
  targetPosition :: vec3
  targetLookAt :: vec3
  duration :: real

record controls_state =
  version :: controls_version
  camera_position :: vec3
  orbit_target :: vec3
  isAutoRotating :: bool
  rotationSpeed :: real
  autoRotateSpeed :: "real option"
  isAnimatingCamera :: bool
  frames :: "transition list"

definition Controls_new :: "controls_version \<Rightarrow> vec3 \<Rightarrow> controls_state" where
  \<comment> \<open>the two constructors; the camera is created by \<open>Gallery3D.initScene\<close>.
      \<open>autoRotateSpeed\<close> is the field of \<open>orbitControls\<close>: the second constructor
      copies \<open>this.rotationSpeed\<close> into it before that is assigned, which leaves it
      \<open>undefined\<close>\<close>
  "Controls_new v cam =
     \<lparr> version = v,
       camera_position = cam,
       orbit_target = (0, 0, 0),
       isAutoRotating = True,
       rotationSpeed = 0.5,
       autoRotateSpeed = (case v of ZoomDisabled \<Rightarrow> Some 0 | OrbitZoom \<Rightarrow> None),
       isAnimatingCamera = (case v of ZoomDisabled \<Rightarrow> True | OrbitZoom \<Rightarrow> False),
       frames = [] \<rparr>"

definition easeInOutCubic :: "real \<Rightarrow> real" where
  "easeInOutCubic t = (if t < 0.5 then 4 * t * t * t else 1 - (-2 * t + 2) ^ 3 / 2)"

definition animateCameraTo :: "vec3 \<Rightarrow> vec3 \<Rightarrow> real \<Rightarrow> real \<Rightarrow> controls_state \<Rightarrow> controls_state" where
  \<comment> \<open>\<open>animateCameraTo(targetPosition, targetLookAt, duration)\<close> called when
      \<open>Date.now()\<close> is \<open>now\<close>\<close>
  "animateCameraTo dest look dur now c =
     (if isAnimatingCamera c then c
      else c\<lparr> isAnimatingCamera := True,
              frames := frames c @
                [\<lparr> startPosition = camera_position c,
                   startLookAt = orbit_target c,
                   startTime = now,
                   targetPosition = dest,
                   targetLookAt = look,
                   duration = dur \<rparr>] \<rparr>)"

definition animate :: "transition \<Rightarrow> real \<Rightarrow> controls_state \<Rightarrow> controls_state option" where
  \<comment> \<open>one run of the closure \<open>animate\<close> at time \<open>now\<close>. With \<open>duration = 0\<close> the
      quotient \<open>elapsed / duration\<close> is \<open>NaN\<close> or infinite; reals have no such value and
      the result is \<open>None\<close>.\<close>
  "animate tr now c =
     (if duration tr = 0 then None
      else
        let elapsed = now - startTime tr;
            progress = min (elapsed / duration tr) 1;
            eased = easeInOutCubic progress;
            c' = c\<lparr> camera_position := lerpVectors (startPosition tr) (targetPosition tr) eased,
                    orbit_target := lerpVectors (startLookAt tr) (targetLookAt tr) eased \<rparr>
        in Some (if progress < 1 then c'\<lparr> frames := frames c' @ [tr] \<rparr>
                 else c'\<lparr> isAnimatingCamera := False \<rparr>))"

definition runFrame :: "real \<Rightarrow> controls_state \<Rightarrow> controls_state option" where
  \<comment> \<open>the browser runs the oldest pending animation-frame callback\<close>
  "runFrame now c =
     (case frames c of
        [] \<Rightarrow> Some c
      | tr # rest \<Rightarrow> animate tr now (c\<lparr> frames := rest \<rparr>))"

definition setAutoRotateSpeed :: "real \<Rightarrow> controls_state \<Rightarrow> controls_state" where
  "setAutoRotateSpeed speed c =
     c\<lparr> rotationSpeed := speed, autoRotateSpeed := Some speed, isAutoRotating := (speed > 0) \<rparr>"

definition toggleAutoRotate :: "controls_state \<Rightarrow> controls_state" where
  "toggleAutoRotate c =
     (let on = \<not> isAutoRotating c in
      case version c of
        ZoomDisabled \<Rightarrow>
          c\<lparr> isAutoRotating := on, autoRotateSpeed := Some (if on then rotationSpeed c else 0) \<rparr>
      | OrbitZoom \<Rightarrow> c\<lparr> isAutoRotating := on \<rparr>)"

text \<open>
  The states a \<open>Controls\<close> object can be in: built by either constructor, then any
  interleaving of transition requests, animation frames, auto-rotation switches, and the
  methods that write the camera position or the orbit target directly (\<open>zoom\<close>,
  \<open>rotate\<close>, \<open>tilt\<close>, \<open>setCameraState\<close>, \<open>resetView\<close>, the shake in \<open>update\<close>).
\<close>

inductive controls_reachable :: "controls_state \<Rightarrow> bool" where
  constructed: "controls_reachable (Controls_new v cam)"
| requested: "controls_reachable c \<Longrightarrow> controls_reachable (animateCameraTo dest look dur now c)"
| frame: "controls_reachable c \<Longrightarrow> runFrame now c = Some c' \<Longrightarrow> controls_reachable c'"
| speed: "controls_reachable c \<Longrightarrow> controls_reachable (setAutoRotateSpeed sp c)"
| toggled: "controls_reachable c \<Longrightarrow> controls_reachable (toggleAutoRotate c)"
| moved: "controls_reachable c \<Longrightarrow>
          controls_reachable (c\<lparr> camera_position := p, orbit_target := q \<rparr>)"


section \<open>ModelLoader: model states, spotlights, rotation\<close>

text \<open>
  \<open>js/controls.js\<close> also holds two versions of the class \<open>ModelLoader\<close>. The second
  (with drag rotation and idle rotation owned by the loader) extends the first; its
  \<open>showModel\<close>, \<open>activateSpotlight\<close>, \<open>animateSpotlights\<close>, \<open>updateSpotlightConfig\<close> and
  the fade part of \<open>update\<close> are the same text in both. The second version is the one
  modelled.

  Of a three.js scene object the model keeps what the loader reads or writes and a claim
  mentions: visibility, the three rotation angles, the horizontal position and the
  opacity of its materials. Shadows, animation mixers, debug helpers, the vertical bob
  and the placement of the lights in space are left out. The values \<open>Math.random()\<close>
  returns while an item is loaded, and whether its asset loads at all, are given with the
  item.
\<close>

record scene_object =
  obj_visible :: bool
  rotation_x :: real
  rotation_y :: real
  rotation_z :: real
  position_x :: real
  material_opacity :: real

record model_manual_rotation =
  rotationX :: real
  rotationY :: real
  baseRotationX :: real
  baseRotationY :: real
  baseRotationZ :: real

record model_auto_rotation =
  auto_currentRotationX :: real
  auto_currentRotationY :: real
  auto_baseRotationX :: real
  auto_baseRotationY :: real
  auto_baseRotationZ :: real

record model_state =
  modelObject :: "scene_object option"
  targetOpacity :: real
  currentOpacity :: real
  visible :: bool
  targetX :: real
  currentX :: real
  manualRot :: model_manual_rotation
  autoRot :: model_auto_rotation

datatype light_color = HSL real real real | Hex nat

record spot_light =
  intensity :: real
  distance :: real
  angle :: real
  penumbra :: real
  decay :: real
  color :: light_color

record spotlight_data =
  light :: spot_light
  originalIntensity :: real
  currentIntensity :: real
  targetIntensity :: real

record spotlight_config =
  cfg_color :: nat
  cfg_intensity :: real
  cfg_distance :: real
  cfg_angle :: real
  cfg_penumbra :: real
  cfg_decay :: real
  cfg_height :: real

text \<open>The object passed to \<open>updateSpotlightConfig\<close>: any of the fields may be absent.\<close>

record config_object =
  new_color :: "nat option"
  new_intensity :: "real option"
  new_distance :: "real option"
  new_angle :: "real option"
  new_penumbra :: "real option"
  new_decay :: "real option"
  new_height :: "real option"

record manual_rotation =
  manual_enabled :: bool
  sensitivity :: real
  dampening :: real
  maxSpeed :: real
  isDragging :: bool
  lastMouseX :: real
  lastMouseY :: real
  velocityX :: real
  velocityY :: real
  targetRotationX :: real
  targetRotationY :: real
  currentRotationX :: real
  currentRotationY :: real
  manual_rotateActiveOnly :: bool

record auto_rotation =
  auto_enabled :: bool
  speed :: real
  direction :: real
  auto_rotateActiveOnly :: bool

record model_loader =
  modelStates :: "string \<rightharpoonup> model_state"
  activeModelId :: "string option"
  modelXOffset :: real
  totalModels :: nat
  scaleMultiplier :: real
  spotlights :: "string \<rightharpoonup> spotlight_data"
  spotlightConfig :: spotlight_config
  manualRotation :: manual_rotation
  autoRotation :: auto_rotation

record gallery_item =
  item_id :: string
  asset_loads :: bool
  random_manual :: vec3
  random_auto :: vec3

definition ModelLoader_new :: model_loader where
  "ModelLoader_new =
     \<lparr> modelStates = Map.empty,
       activeModelId = None,
       modelXOffset = 6,
       totalModels = 0,
       scaleMultiplier = 1.0,
       spotlights = Map.empty,
       spotlightConfig =
         \<lparr> cfg_color = 16777215, cfg_intensity = 2.0, cfg_distance = 30, cfg_angle = pi / 6,
           cfg_penumbra = 0.3, cfg_decay = 1.5, cfg_height = 8 \<rparr>,
       manualRotation =
         \<lparr> manual_enabled = True, sensitivity = 0.05, dampening = 0.95, maxSpeed = 0.05,
           isDragging = False, lastMouseX = 0, lastMouseY = 0, velocityX = 0, velocityY = 0,
           targetRotationX = 0, targetRotationY = 0, currentRotationX = 0,
           currentRotationY = 0, manual_rotateActiveOnly = True \<rparr>,
       autoRotation =
         \<lparr> auto_enabled = True, speed = 0.5, direction = -1, auto_rotateActiveOnly = True \<rparr> \<rparr>"

subsection \<open>Pointer handlers of the loader\<close>

definition onMouseDown :: "int \<Rightarrow> real \<Rightarrow> real \<Rightarrow> model_loader \<Rightarrow> model_loader" where
  \<comment> \<open>\<open>onMouseDown(event)\<close> with \<open>event.button\<close>, \<open>event.clientX\<close>, \<open>event.clientY\<close>\<close>
  "onMouseDown button clientX clientY s =
     (let m = manualRotation s in
      if \<not> manual_enabled m \<or> button \<noteq> 0 then s
      else s\<lparr> manualRotation :=
                m\<lparr> isDragging := True, lastMouseX := clientX, lastMouseY := clientY,
                   velocityX := 0, velocityY := 0 \<rparr> \<rparr>)"

definition onMouseMove :: "real \<Rightarrow> real \<Rightarrow> model_loader \<Rightarrow> model_loader" where
  "onMouseMove clientX clientY s =
     (let m = manualRotation s in
      if \<not> manual_enabled m \<or> \<not> isDragging m then s
      else
        let deltaX = clientX - lastMouseX m;
            deltaY = clientY - lastMouseY m
        in s\<lparr> manualRotation :=
                m\<lparr> velocityX := clamp_between (- maxSpeed m) (maxSpeed m) (deltaX * sensitivity m),
                   velocityY := clamp_between (- maxSpeed m) (maxSpeed m) (deltaY * sensitivity m),
                   lastMouseX := clientX, lastMouseY := clientY \<rparr> \<rparr>)"

definition onMouseUp :: "model_loader \<Rightarrow> model_loader" where
  "onMouseUp s =
     (let m = manualRotation s in
      if \<not> manual_enabled m then s else s\<lparr> manualRotation := m\<lparr> isDragging := False \<rparr> \<rparr>)"

definition onMouseLeave :: "model_loader \<Rightarrow> model_loader" where
  "onMouseLeave s =
     (let m = manualRotation s in
      if \<not> manual_enabled m then s else s\<lparr> manualRotation := m\<lparr> isDragging := False \<rparr> \<rparr>)"

definition onTouchStart :: "(real \<times> real) list \<Rightarrow> model_loader \<Rightarrow> model_loader" where
  \<comment> \<open>\<open>event.touches\<close> as the list of \<open>(clientX, clientY)\<close>\<close>
  "onTouchStart touches s =
     (let m = manualRotation s in
      case touches of
        [(clientX, clientY)] \<Rightarrow>
          if \<not> manual_enabled m then s
          else s\<lparr> manualRotation :=
                    m\<lparr> isDragging := True, lastMouseX := clientX, lastMouseY := clientY,
                       velocityX := 0, velocityY := 0 \<rparr> \<rparr>
      | _ \<Rightarrow> s)"

definition onTouchMove :: "(real \<times> real) list \<Rightarrow> model_loader \<Rightarrow> model_loader" where
  \<comment> \<open>unlike \<open>onMouseMove\<close>, the touch handler does not clamp the velocity\<close>
  "onTouchMove touches s =
     (let m = manualRotation s in
      case touches of
        [(clientX, clientY)] \<Rightarrow>
          if \<not> manual_enabled m \<or> \<not> isDragging m then s
          else s\<lparr> manualRotation :=
                    m\<lparr> velocityX := (clientX - lastMouseX m) * sensitivity m,
                       velocityY := (clientY - lastMouseY m) * sensitivity m,
                       lastMouseX := clientX, lastMouseY := clientY \<rparr> \<rparr>
      | _ \<Rightarrow> s)"

definition onTouchEnd :: "model_loader \<Rightarrow> model_loader" where
  "onTouchEnd s =
     (let m = manualRotation s in
      if \<not> manual_enabled m then s else s\<lparr> manualRotation := m\<lparr> isDragging := False \<rparr> \<rparr>)"

subsection \<open>Layout and loading\<close>

definition calculateSceneLayout :: "nat \<Rightarrow> model_loader \<Rightarrow> model_loader" where
  "calculateSceneLayout n s =
     (if n \<le> 3 then s\<lparr> totalModels := n, modelXOffset := 6, scaleMultiplier := 1.0 \<rparr>
      else if n \<le> 6 then s\<lparr> totalModels := n, modelXOffset := 5, scaleMultiplier := 0.9 \<rparr>
      else if n \<le> 10 then s\<lparr> totalModels := n, modelXOffset := 4.5, scaleMultiplier := 0.8 \<rparr>
      else s\<lparr> totalModels := n, modelXOffset := 4, scaleMultiplier := 0.7 \<rparr>)"

definition getModelPosition :: "real \<Rightarrow> int \<Rightarrow> model_loader \<Rightarrow> real" where
  \<comment> \<open>\<open>innerWidth\<close> is \<open>window.innerWidth\<close>\<close>
  "getModelPosition innerWidth index s =
     (if innerWidth \<le> 768 then 0
      else if index mod 2 = 0 then modelXOffset s else - modelXOffset s)"

definition initial_model_state :: "gallery_item \<Rightarrow> nat \<Rightarrow> model_state" where
  \<comment> \<open>the object literal \<open>loadModel\<close> stores before the asset is requested\<close>
  "initial_model_state item index =
     (case random_manual item of (r1, r2, r3) \<Rightarrow>
      case random_auto item of (r4, r5, r6) \<Rightarrow>
        \<lparr> modelObject = None,
          targetOpacity = (if index = 0 then 1 else 0),
          currentOpacity = (if index = 0 then 1 else 0),
          visible = (index = 0),
          targetX = 0,
          currentX = 0,
          manualRot =
            \<lparr> rotationX = 0, rotationY = 0,
              baseRotationX = (r1 - 0.5) * 0.2,
              baseRotationY = r2 * pi * 2,
              baseRotationZ = (r3 - 0.5) * 0.2 \<rparr>,
          autoRot =
            \<lparr> auto_currentRotationX = 0, auto_currentRotationY = 0,
              auto_baseRotationX = (r4 - 0.5) * 0.2,
              auto_baseRotationY = r5 * pi * 2,
              auto_baseRotationZ = (r6 - 0.5) * 0.2 \<rparr> \<rparr>)"

definition createSpotlightForModel :: "string \<Rightarrow> nat \<Rightarrow> model_loader \<Rightarrow> model_loader" where
  "createSpotlightForModel modelId index s =
     (let cfg = spotlightConfig s;
          start = (if index = 0 then cfg_intensity cfg else 0)
      in s\<lparr> spotlights := (spotlights s)(modelId \<mapsto>
              \<lparr> light =
                  \<lparr> intensity = start,
                    distance = cfg_distance cfg,
                    angle = cfg_angle cfg,
                    penumbra = cfg_penumbra cfg,
                    decay = cfg_decay cfg,
                    color = HSL (frac (real index * 0.15)) 0.3 0.9 \<rparr>,
                originalIntensity = cfg_intensity cfg,
                currentIntensity = start,
                targetIntensity = start \<rparr>) \<rparr>)"

definition processModel :: "real \<Rightarrow> gallery_item \<Rightarrow> nat \<Rightarrow> model_loader \<Rightarrow> model_loader" where
  \<comment> \<open>the success callback of the asset load: \<open>setupModelMaterials\<close>, \<open>positionModel\<close>,
      \<open>createSpotlightForModel\<close>, then the model is stored and shown or hidden\<close>
  "processModel innerWidth item index s =
     (case modelStates s (item_id item) of
        None \<Rightarrow> s
      | Some st \<Rightarrow>
          let x = (if innerWidth \<le> 768 then 0
                   else if index mod 2 = 0 then modelXOffset s else - modelXOffset s);
              model =
                \<lparr> obj_visible = (index = 0),
                  rotation_x = baseRotationX (manualRot st),
                  rotation_y = baseRotationY (manualRot st),
                  rotation_z = baseRotationZ (manualRot st),
                  position_x = x,
                  material_opacity = currentOpacity st \<rparr>;
              s1 = createSpotlightForModel (item_id item) index s;
              s2 = s1\<lparr> modelStates := (modelStates s1)(item_id item \<mapsto>
                         st\<lparr> targetX := x, currentX := x, modelObject := Some model \<rparr>) \<rparr>
          in if index \<noteq> 0 then s2 else s2\<lparr> activeModelId := Some (item_id item) \<rparr>)"

definition loadModel :: "real \<Rightarrow> gallery_item \<Rightarrow> nat \<Rightarrow> model_loader \<Rightarrow> model_loader" where
  \<comment> \<open>the state is stored first; \<open>processModel\<close> runs only when the asset loads\<close>
  "loadModel innerWidth item index s =
     (let s1 = s\<lparr> modelStates := (modelStates s)(item_id item \<mapsto> initial_model_state item index) \<rparr>
      in if asset_loads item then processModel innerWidth item index s1 else s1)"

subsection \<open>Activation\<close>

definition activateSpotlight :: "string \<Rightarrow> model_loader \<Rightarrow> model_loader" where
  "activateSpotlight modelId s =
     s\<lparr> spotlights := (\<lambda>k. map_option
            (\<lambda>sd. sd\<lparr> targetIntensity := (if k = modelId then originalIntensity sd else 0) \<rparr>)
            (spotlights s k)) \<rparr>"

definition hideCurrent :: "model_loader \<Rightarrow> model_loader" where
  \<comment> \<open>first statement of \<open>showModel\<close>, "hide current model", guarded by
      \<open>this.activeModelId && this.modelStates[this.activeModelId]\<close>; \<open>null\<close> and the
      empty string are falsy\<close>
  "hideCurrent s =
     (case activeModelId s of
        None \<Rightarrow> s
      | Some a \<Rightarrow>
          if a = [] then s
          else
            (case modelStates s a of
               None \<Rightarrow> s
             | Some st \<Rightarrow>
                 s\<lparr> modelStates := (modelStates s)(a \<mapsto>
                       st\<lparr> targetOpacity := 0, visible := False \<rparr>) \<rparr>))"

definition showNew :: "string \<Rightarrow> model_loader \<Rightarrow> model_loader" where
  \<comment> \<open>the rest of \<open>showModel\<close> up to the spotlight\<close>
  "showNew modelId s =
     (let s1 = s\<lparr> activeModelId := Some modelId \<rparr> in
      case modelStates s1 modelId of
        None \<Rightarrow> s1
      | Some st \<Rightarrow>
          s1\<lparr> modelStates := (modelStates s1)(modelId \<mapsto>
                 st\<lparr> targetOpacity := 1, visible := True,
                    modelObject := map_option (\<lambda>obj. obj\<lparr> obj_visible := True \<rparr>) (modelObject st) \<rparr>) \<rparr>)"

definition showModel :: "string \<Rightarrow> int \<Rightarrow> model_loader \<Rightarrow> model_loader" where
  "showModel modelId index s = activateSpotlight modelId (showNew modelId (hideCurrent s))"

subsection \<open>Drag rotation and idle rotation\<close>

definition applyManualRotationToModel :: "string \<Rightarrow> model_loader \<Rightarrow> model_loader" where
  "applyManualRotationToModel modelId s =
     (case modelStates s modelId of
        None \<Rightarrow> s
      | Some st \<Rightarrow>
          (case modelObject st of
             None \<Rightarrow> s
           | Some obj \<Rightarrow>
               s\<lparr> modelStates := (modelStates s)(modelId \<mapsto>
                     st\<lparr> modelObject := Some (obj
                          \<lparr> rotation_x := baseRotationX (manualRot st) + currentRotationX (manualRotation s),
                            rotation_y := baseRotationY (manualRot st) + currentRotationY (manualRotation s),
                            rotation_z := baseRotationZ (manualRot st) \<rparr>) \<rparr>) \<rparr>))"

definition advanceManualRotation :: "real \<Rightarrow> manual_rotation \<Rightarrow> manual_rotation" where
  \<comment> \<open>first half of \<open>updateManualRotation(delta)\<close>: the velocities are dampened, then
      added to the target rotations, and the current rotations ease toward the targets\<close>
  "advanceManualRotation delta m =
     (let vx = velocityX m * dampening m;
          vy = velocityY m * dampening m;
          ty = targetRotationY m + vx;
          tx = targetRotationX m + vy
      in m\<lparr> velocityX := vx, velocityY := vy,
            targetRotationY := ty, targetRotationX := tx,
            currentRotationX := lerp (currentRotationX m) tx (delta * 8),
            currentRotationY := lerp (currentRotationY m) ty (delta * 8) \<rparr>)"

definition applyManualRotation :: "model_loader \<Rightarrow> model_loader" where
  \<comment> \<open>second half of \<open>updateManualRotation\<close>, "apply rotation to models". With
      \<open>rotateActiveOnly\<close> cleared the source loops over all models; every turn of that
      loop touches its own model only, so the loop is written pointwise\<close>
  "applyManualRotation s =
     (if manual_rotateActiveOnly (manualRotation s) then
        (case activeModelId s of
           None \<Rightarrow> s
         | Some a \<Rightarrow>
             if a \<noteq> [] \<and> modelStates s a \<noteq> None then applyManualRotationToModel a s else s)
      else
        s\<lparr> modelStates := (\<lambda>k.
              case modelStates s k of
                None \<Rightarrow> None
              | Some st \<Rightarrow>
                  if visible st then modelStates (applyManualRotationToModel k s) k
                  else Some st) \<rparr>)"

definition updateManualRotation :: "real \<Rightarrow> model_loader \<Rightarrow> model_loader" where
  "updateManualRotation delta s =
     applyManualRotation (s\<lparr> manualRotation := advanceManualRotation delta (manualRotation s) \<rparr>)"

definition applyAutoRotationToModel :: "string \<Rightarrow> real \<Rightarrow> model_loader \<Rightarrow> model_loader" where
  "applyAutoRotationToModel modelId delta s =
     (case modelStates s modelId of
        None \<Rightarrow> s
      | Some st \<Rightarrow>
          (case modelObject st of
             None \<Rightarrow> s
           | Some obj \<Rightarrow>
               let a = autoRot st;
                   y = auto_currentRotationY a + speed (autoRotation s) * direction (autoRotation s) * delta
               in s\<lparr> modelStates := (modelStates s)(modelId \<mapsto>
                       st\<lparr> autoRot := a\<lparr> auto_currentRotationY := y \<rparr>,
                          modelObject := Some (obj
                            \<lparr> rotation_x := auto_baseRotationX a,
                              rotation_y := auto_baseRotationY a + y,
                              rotation_z := auto_baseRotationZ a \<rparr>) \<rparr>) \<rparr>))"

definition updateAutoRotation :: "real \<Rightarrow> model_loader \<Rightarrow> model_loader" where
  "updateAutoRotation delta s =
     (if auto_rotateActiveOnly (autoRotation s) then
        (case activeModelId s of
           None \<Rightarrow> s
         | Some a \<Rightarrow>
             if a \<noteq> [] \<and> modelStates s a \<noteq> None then applyAutoRotationToModel a delta s else s)
      else
        s\<lparr> modelStates := (\<lambda>k.
              case modelStates s k of
                None \<Rightarrow> None
              | Some st \<Rightarrow>
                  if visible st then modelStates (applyAutoRotationToModel k delta s) k
                  else Some st) \<rparr>)"

subsection \<open>The per-frame update\<close>

definition fadeModel :: "real \<Rightarrow> model_state \<Rightarrow> model_state" where
  \<comment> \<open>the body of the loop over \<open>modelStates\<close> in \<open>update(delta)\<close>, with
      \<open>updateModelAppearance\<close> inlined; a state without scene object is skipped\<close>
  "fadeModel delta st =
     (case modelObject st of
        None \<Rightarrow> st
      | Some obj \<Rightarrow>
          let opacity = lerp (currentOpacity st) (targetOpacity st) (delta * 3);
              x = lerp (currentX st) (targetX st) (delta * 4);
              st1 = st\<lparr> currentOpacity := opacity, currentX := x \<rparr>;
              st2 = (if currentOpacity st1 < 0.01 \<and> targetOpacity st1 = 0
                     then st1\<lparr> visible := False, currentOpacity := 0 \<rparr>
                     else if targetOpacity st1 > 0 then st1\<lparr> visible := True \<rparr>
                     else st1)
          in st2\<lparr> modelObject := Some (obj
                  \<lparr> position_x := x,
                    obj_visible := visible st2,
                    material_opacity := currentOpacity st2 \<rparr>) \<rparr>)"

definition animateSpotlights :: "real \<Rightarrow> real \<Rightarrow> model_loader \<Rightarrow> model_loader" where
  \<comment> \<open>\<open>now\<close> is \<open>Date.now()\<close>\<close>
  "animateSpotlights delta now s =
     s\<lparr> spotlights := (\<lambda>k. map_option
            (\<lambda>sd.
               let cur = lerp (currentIntensity sd) (targetIntensity sd) (delta * 3);
                   pulse = sin (now * 0.002) * 0.1 + 1
               in sd\<lparr> currentIntensity := cur,
                      light := (light sd)
                        \<lparr> intensity := (if targetIntensity sd > 0 then cur * pulse else cur) \<rparr> \<rparr>)
            (spotlights s k)) \<rparr>"

definition update :: "real \<Rightarrow> real \<Rightarrow> model_loader \<Rightarrow> model_loader" where
  \<comment> \<open>\<open>update(delta)\<close> at time \<open>now\<close>: drag rotation, idle rotation, the fade of every
      model, the spotlights\<close>
  "update delta now s =
     (let s1 = (if manual_enabled (manualRotation s) then updateManualRotation delta s else s);
          s2 = (if auto_enabled (autoRotation s1) \<and> \<not> isDragging (manualRotation s1)
                then updateAutoRotation delta s1 else s1);
          s3 = s2\<lparr> modelStates := (\<lambda>k. map_option (fadeModel delta) (modelStates s2 k)) \<rparr>
      in animateSpotlights delta now s3)"

subsection \<open>Settings of the loader\<close>

definition updateSpotlightConfig :: "config_object \<Rightarrow> model_loader \<Rightarrow> model_loader" where
  \<comment> \<open>the stored configuration takes every field that is present; an existing light
      takes a field only when it is truthy\<close>
  "updateSpotlightConfig config s =
     (let old = spotlightConfig s;
          merged =
            \<lparr> cfg_color = (case new_color config of None \<Rightarrow> cfg_color old | Some v \<Rightarrow> v),
              cfg_intensity = (case new_intensity config of None \<Rightarrow> cfg_intensity old | Some v \<Rightarrow> v),
              cfg_distance = (case new_distance config of None \<Rightarrow> cfg_distance old | Some v \<Rightarrow> v),
              cfg_angle = (case new_angle config of None \<Rightarrow> cfg_angle old | Some v \<Rightarrow> v),
              cfg_penumbra = (case new_penumbra config of None \<Rightarrow> cfg_penumbra old | Some v \<Rightarrow> v),
              cfg_decay = (case new_decay config of None \<Rightarrow> cfg_decay old | Some v \<Rightarrow> v),
              cfg_height = (case new_height config of None \<Rightarrow> cfg_height old | Some v \<Rightarrow> v) \<rparr>
      in s\<lparr> spotlightConfig := merged,
            spotlights := (\<lambda>k. map_option
              (\<lambda>sd.
                 let l = light sd;
                     l1 = l\<lparr> intensity := or_number (new_intensity config) (intensity l),
                            distance := or_number (new_distance config) (distance l),
                            angle := or_number (new_angle config) (angle l),
                            penumbra := or_number (new_penumbra config) (penumbra l),
                            decay := or_number (new_decay config) (decay l) \<rparr>
                 in sd\<lparr> light :=
                      (case new_color config of
                         None \<Rightarrow> l1
                       | Some v \<Rightarrow> if v = 0 then l1 else l1\<lparr> color := Hex v \<rparr>) \<rparr>)
              (spotlights s k)) \<rparr>)"

definition setRotationSensitivity :: "real \<Rightarrow> model_loader \<Rightarrow> model_loader" where
  "setRotationSensitivity v s =
     s\<lparr> manualRotation := (manualRotation s)\<lparr> sensitivity := max 0.001 (min 0.1 v) \<rparr> \<rparr>"

definition setRotationDampening :: "real \<Rightarrow> model_loader \<Rightarrow> model_loader" where
  "setRotationDampening v s =
     s\<lparr> manualRotation := (manualRotation s)\<lparr> dampening := max 0.8 (min 0.99 v) \<rparr> \<rparr>"

definition resetManualRotation :: "model_loader \<Rightarrow> model_loader" where
  "resetManualRotation s =
     s\<lparr> manualRotation := (manualRotation s)
           \<lparr> targetRotationX := 0, targetRotationY := 0,
             currentRotationX := 0, currentRotationY := 0,
             velocityX := 0, velocityY := 0 \<rparr> \<rparr>"

definition disableManualRotation :: "model_loader \<Rightarrow> model_loader" where
  "disableManualRotation s =
     s\<lparr> manualRotation := (manualRotation s)\<lparr> manual_enabled := False, isDragging := False \<rparr> \<rparr>"

definition disableAutoRotation :: "model_loader \<Rightarrow> model_loader" where
  "disableAutoRotation s = s\<lparr> autoRotation := (autoRotation s)\<lparr> auto_enabled := False \<rparr> \<rparr>"

definition toggleAutoRotation :: "model_loader \<Rightarrow> model_loader" where
  "toggleAutoRotation s =
     s\<lparr> autoRotation := (autoRotation s)\<lparr> auto_enabled := \<not> auto_enabled (autoRotation s) \<rparr> \<rparr>"

definition setAutoRotationSpeed :: "real \<Rightarrow> model_loader \<Rightarrow> model_loader" where
  "setAutoRotationSpeed v s =
     s\<lparr> autoRotation := (autoRotation s)\<lparr> speed := max 0 (min 5 v) \<rparr> \<rparr>"

definition setAutoRotationDirection :: "real \<Rightarrow> model_loader \<Rightarrow> model_loader" where
  "setAutoRotationDirection v s =
     s\<lparr> autoRotation := (autoRotation s)\<lparr> direction := (if v > 0 then 1 else -1) \<rparr> \<rparr>"


section \<open>MouseInteraction: direct rotation of the active model\<close>

text \<open>
  \<open>js/mouseInteraction.js\<close> rotates the scene object of the model under the pointer
  itself. Which model the pointer is over is decided by three.js raycasting; the handlers
  are modelled from the point where the drag is established.
\<close>

record mouse_interaction =
  mi_isInteracting :: bool
  mi_isDragging :: bool
  mi_isHovering :: bool
  mi_activeModel :: "string option"
  mouseStart :: "real \<times> real"
  mouseCurrent :: "real \<times> real"
  mi_rotationSpeed :: real

definition MouseInteraction_new :: mouse_interaction where
  "MouseInteraction_new =
     \<lparr> mi_isInteracting = False, mi_isDragging = False, mi_isHovering = False,
       mi_activeModel = None, mouseStart = (0, 0), mouseCurrent = (0, 0),
       mi_rotationSpeed = 0.01 \<rparr>"

definition rotateActiveModel ::
  "real \<Rightarrow> real \<Rightarrow> mouse_interaction \<Rightarrow> model_loader \<Rightarrow> model_loader" where
  "rotateActiveModel deltaX deltaY mi s =
     (case mi_activeModel mi of
        None \<Rightarrow> s
      | Some a \<Rightarrow>
          if a = [] then s
          else
            (case modelStates s a of
               None \<Rightarrow> s
             | Some st \<Rightarrow>
                 (case modelObject st of
                    None \<Rightarrow> s
                  | Some obj \<Rightarrow>
                      s\<lparr> modelStates := (modelStates s)(a \<mapsto>
                            st\<lparr> modelObject := Some (obj
                                 \<lparr> rotation_y := rotation_y obj + deltaX * mi_rotationSpeed mi,
                                   rotation_x := clamp_between (- (pi / 3)) (pi / 3)
                                     (rotation_x obj + deltaY * mi_rotationSpeed mi) \<rparr>) \<rparr>) \<rparr>)))"

definition dragTo ::
  "real \<Rightarrow> real \<Rightarrow> mouse_interaction \<times> model_loader \<Rightarrow> mouse_interaction \<times> model_loader" where
  \<comment> \<open>the dragging branch of \<open>MouseInteraction.onMouseMove\<close> (and of \<open>onTouchMove\<close>
      with one touch)\<close>
  "dragTo clientX clientY ms =
     (case ms of (mi, s) \<Rightarrow>
        let mi1 = mi\<lparr> mouseCurrent := (clientX, clientY) \<rparr> in
        if mi_isDragging mi1 \<and> mi_activeModel mi1 \<noteq> None \<and> mi_activeModel mi1 \<noteq> Some []
        then (mi1\<lparr> mouseStart := mouseCurrent mi1 \<rparr>,
              rotateActiveModel (clientX - fst (mouseStart mi1)) (clientY - snd (mouseStart mi1)) mi1 s)
        else (mi1, s))"

definition reset :: "mouse_interaction \<Rightarrow> mouse_interaction" where
  "reset mi =
     mi\<lparr> mi_isHovering := False, mi_isDragging := False, mi_isInteracting := False,
         mi_activeModel := None \<rparr>"


section \<open>Gallery3D: navigation between items\<close>

text \<open>
  What \<open>Gallery3D\<close> does to the page (progress dots, title, interaction hint, scrolling,
  error banner) is recorded as a log of events; these are the notifications the user
  interface receives when an item is activated.
\<close>

datatype ui_event =
    UpdateProgressDots int
  | UpdateModelInfo string
  | UpdateInteractionArea int
  | ScrollIntoView string
  | ShowError string
  | SetButtonActive bool

record gallery_settings =
  cameraDistance :: real
  setting_autoRotateSpeed :: real
  setting_spotlightConfig :: "config_object option"

record gallery =
  galleryData :: "gallery_item list"
  settings :: gallery_settings
  currentIndex :: int
  modelLoader :: model_loader
  controls :: controls_state
  mouseInteraction :: mouse_interaction
  ui_log :: "ui_event list"
  window_innerWidth :: real
  document_ids :: "string list"

fun loadEach :: "real \<Rightarrow> nat \<Rightarrow> gallery_item list \<Rightarrow> model_loader \<times> ui_event list \<Rightarrow>
    model_loader \<times> ui_event list" where
  \<comment> \<open>the \<open>for\<close> loop of \<open>loadModels\<close>, from index \<open>i\<close> on; a rejected load is caught
      and reported\<close>
  "loadEach w i [] acc = acc"
| "loadEach w i (item # rest) (s, evs) =
     loadEach w (Suc i) rest
       (loadModel w item i s,
        if asset_loads item then evs else evs @ [ShowError (item_id item)])"

definition loadModels :: "gallery \<Rightarrow> gallery" where
  "loadModels g =
     (let items = galleryData g;
          s0 = calculateSceneLayout (length items) (modelLoader g);
          (s1, evs) = loadEach (window_innerWidth g) 0 items (s0, ui_log g)
      in case items of
           [] \<Rightarrow> g\<lparr> modelLoader := s1, ui_log := evs \<rparr>
         | first # _ \<Rightarrow>
             g\<lparr> modelLoader := showModel (item_id first) 0 s1, ui_log := evs, currentIndex := 0 \<rparr>)"

definition Gallery3D_init ::
  "controls_version \<Rightarrow> gallery_settings \<Rightarrow> gallery_item list \<Rightarrow> real \<Rightarrow> gallery" where
  \<comment> \<open>\<open>init()\<close> up to and including \<open>loadModels()\<close>\<close>
  "Gallery3D_init v st items w =
     loadModels
       \<lparr> galleryData = items,
         settings = st,
         currentIndex = 0,
         modelLoader =
           (case setting_spotlightConfig st of
              None \<Rightarrow> ModelLoader_new
            | Some config \<Rightarrow> updateSpotlightConfig config ModelLoader_new),
         controls = Controls_new v (0, 0, cameraDistance st),
         mouseInteraction = MouseInteraction_new,
         ui_log = [],
         window_innerWidth = w,
         document_ids = map item_id items \<rparr>"

definition updateCameraForModel ::
  "real \<Rightarrow> real \<Rightarrow> model_loader \<Rightarrow> int \<Rightarrow> controls_state \<Rightarrow> controls_state" where
  \<comment> \<open>\<open>Controls.updateCameraForModel(modelIndex)\<close>, in both versions of the class\<close>
  "updateCameraForModel now w loader modelIndex c =
     (case camera_position c of (cx, cy, cz) \<Rightarrow>
        (case version c of
           ZoomDisabled \<Rightarrow> animateCameraTo (cx, cy, cz) (0, 0, 0) 800 now c
         | OrbitZoom \<Rightarrow>
             let modelPosition = getModelPosition w modelIndex loader;
                 cameraOffset = (if w \<le> 768 then 0 else modelPosition * 0.2);
                 dur = (if totalModels loader > 6 then 1500 else 1000)
             in animateCameraTo (cameraOffset, cy, cz) (modelPosition, 0, 0) dur now c))"

definition switchToItem :: "real \<Rightarrow> int \<Rightarrow> gallery \<Rightarrow> gallery" where
  "switchToItem now newIndex g =
     (if newIndex \<noteq> currentIndex g \<and> newIndex \<ge> 0 \<and> newIndex < int (length (galleryData g))
      then
        let item = galleryData g ! nat newIndex;
            loader = showModel (item_id item) newIndex (modelLoader g)
        in g\<lparr> currentIndex := newIndex,
              modelLoader := loader,
              ui_log := ui_log g @
                [UpdateProgressDots newIndex, UpdateModelInfo (item_id item),
                 UpdateInteractionArea newIndex],
              controls := updateCameraForModel now (window_innerWidth g) loader newIndex (controls g),
              mouseInteraction := reset (mouseInteraction g) \<rparr>
      else g)"

definition navigateToItem :: "real \<Rightarrow> int \<Rightarrow> gallery \<Rightarrow> gallery" where
  \<comment> \<open>\<open>document.getElementById\<close> finds an element only for a non-empty identifier
      present in the page\<close>
  "navigateToItem now index g =
     (if index \<ge> 0 \<and> index < int (length (galleryData g)) \<and> index \<noteq> currentIndex g
      then
        let item = galleryData g ! nat index in
        if item_id item \<noteq> [] \<and> item_id item \<in> set (document_ids g)
        then switchToItem now index (g\<lparr> ui_log := ui_log g @ [ScrollIntoView (item_id item)] \<rparr>)
        else g
      else g)"

definition onItemChange :: "real \<Rightarrow> int \<Rightarrow> gallery \<Rightarrow> gallery" where
  \<comment> \<open>called by the scroll handler\<close>
  "onItemChange now newIndex g = switchToItem now newIndex g"

definition onModelInteract_start :: "gallery \<Rightarrow> gallery" where
  \<comment> \<open>\<open>onModelInteract('startInteraction', ...)\<close>\<close>
  "onModelInteract_start g =
     g\<lparr> controls := setAutoRotateSpeed 0 (controls g),
         ui_log := ui_log g @ [SetButtonActive False] \<rparr>"

definition onModelInteract_end_timeout :: "gallery \<Rightarrow> gallery" where
  \<comment> \<open>the callback \<open>onModelInteract('endInteraction')\<close> schedules; it runs 2000 ms later\<close>
  "onModelInteract_end_timeout g =
     (if isAutoRotating (controls g)
      then g\<lparr> controls := setAutoRotateSpeed (setting_autoRotateSpeed (settings g)) (controls g) \<rparr>
      else g)"

definition Controls_update :: "real \<Rightarrow> controls_state \<Rightarrow> controls_state" where
  \<comment> \<open>\<open>Controls.update(delta)\<close>: the camera shake\<close>
  "Controls_update now c =
     (if isAutoRotating c \<and> \<not> isAnimatingCamera c
      then (case camera_position c of (cx, cy, cz) \<Rightarrow>
              c\<lparr> camera_position := (cx, cy + sin (now * 0.001 * 2) * 0.002, cz) \<rparr>)
      else c)"

definition Gallery3D_animate :: "real \<Rightarrow> real \<Rightarrow> gallery \<Rightarrow> gallery" where
  \<comment> \<open>one turn of the animation loop: \<open>delta\<close> is \<open>clock.getDelta()\<close>\<close>
  "Gallery3D_animate delta now g =
     g\<lparr> controls := Controls_update now (controls g),
         modelLoader := update delta now (modelLoader g) \<rparr>"


section \<open>Example galleries\<close>

text \<open>
  Small configurations on which the theorems below are instantiated. The random numbers
  are chosen so that every base rotation is zero.
\<close>

definition example_settings :: gallery_settings where
  "example_settings =
     \<lparr> cameraDistance = 5, setting_autoRotateSpeed = 0.5, setting_spotlightConfig = None \<rparr>"

definition item_loaded :: "string \<Rightarrow> gallery_item" where
  "item_loaded k =
     \<lparr> item_id = k, asset_loads = True, random_manual = (0.5, 0, 0.5), random_auto = (0.5, 0, 0.5) \<rparr>"

definition item_failed :: "string \<Rightarrow> gallery_item" where
  "item_failed k =
     \<lparr> item_id = k, asset_loads = False, random_manual = (0.5, 0, 0.5), random_auto = (0.5, 0, 0.5) \<rparr>"

definition gallery_one_failed :: gallery where
  \<comment> \<open>two items; the asset of the second does not load\<close>
  "gallery_one_failed =
     Gallery3D_init OrbitZoom example_settings [item_loaded ''a'', item_failed ''b''] 1024"

definition gallery_of_three :: gallery where
  \<comment> \<open>three items, all loaded, the first active\<close>
  "gallery_of_three =
     Gallery3D_init OrbitZoom example_settings
       [item_loaded ''a'', item_loaded ''b'', item_loaded ''c''] 1024"

definition empty_id_gallery :: gallery where
  \<comment> \<open>two items, both loaded; the identifier of the first is the empty string\<close>
  "empty_id_gallery =
     Gallery3D_init OrbitZoom example_settings [item_loaded [], item_loaded ''b''] 1024"

definition loader_with_light :: model_loader where
  \<comment> \<open>a fresh loader with the spotlight of a first model \<open>a\<close>\<close>
  "loader_with_light = createSpotlightForModel ''a'' 0 ModelLoader_new"

definition zero_config :: config_object where
  "zero_config =
     \<lparr> new_color = None, new_intensity = Some 0, new_distance = Some 0, new_angle = Some 0,
       new_penumbra = Some 0, new_decay = Some 0, new_height = None \<rparr>"


section \<open>Sessions and the predicates of the proofs\<close>

text \<open>
  A session is the gallery as \<open>init()\<close> leaves it, followed by any sequence of
  activation requests (from the scroll handler or from the progress dots and arrow keys)
  and animation frames.
\<close>

datatype gallery_call = SwitchTo real int | NavigateTo real int | Frame real real

fun perform :: "gallery_call \<Rightarrow> gallery \<Rightarrow> gallery" where
  "perform (SwitchTo now i) g = switchToItem now i g"
| "perform (NavigateTo now i) g = navigateToItem now i g"
| "perform (Frame delta now) g = Gallery3D_animate delta now g"

definition run :: "gallery_call list \<Rightarrow> gallery \<Rightarrow> gallery" where
  "run calls g = foldl (\<lambda>g c. perform c g) g calls"

definition opacityTarget :: "model_loader \<Rightarrow> string \<Rightarrow> real option" where
  "opacityTarget s k = map_option targetOpacity (modelStates s k)"

definition at_most_one_active :: "model_loader \<Rightarrow> bool" where
  "at_most_one_active s =
     (\<forall>k k' st st'. modelStates s k = Some st \<and> targetOpacity st = 1 \<and>
        modelStates s k' = Some st' \<and> targetOpacity st' = 1 \<longrightarrow> k = k')"

definition single_active :: "model_loader \<Rightarrow> bool" where
  \<comment> \<open>whatever has target opacity 1 is the active model\<close>
  "single_active s =
     (\<forall>k st. modelStates s k = Some st \<longrightarrow> targetOpacity st = 1 \<longrightarrow> activeModelId s = Some k)"

definition same_fade :: "model_state \<Rightarrow> model_state \<Rightarrow> bool" where
  \<comment> \<open>two states agree on everything the fade reads, and on the base rotation\<close>
  "same_fade st st1 =
     (targetOpacity st1 = targetOpacity st \<and> currentOpacity st1 = currentOpacity st \<and>
      visible st1 = visible st \<and> (modelObject st1 = None \<longleftrightarrow> modelObject st = None) \<and>
      manualRot st1 = manualRot st)"

definition first_only :: "string \<Rightarrow> model_loader \<Rightarrow> bool" where
  \<comment> \<open>while the items are loaded: only the first item can have target opacity 1 or be
      active\<close>
  "first_only k0 s =
     ((\<forall>k st. modelStates s k = Some st \<longrightarrow> targetOpacity st = 1 \<longrightarrow> k = k0) \<and>
      (activeModelId s = None \<or> activeModelId s = Some k0))"

definition fresh_loader :: "gallery_settings \<Rightarrow> model_loader" where
  \<comment> \<open>the loader as \<open>init()\<close> builds it, before any model is loaded\<close>
  "fresh_loader st =
     (case setting_spotlightConfig st of
        None \<Rightarrow> ModelLoader_new
      | Some config \<Rightarrow> updateSpotlightConfig config ModelLoader_new)"

definition session_inv :: "gallery_item list \<Rightarrow> gallery \<Rightarrow> bool" where
  "session_inv items g =
     (galleryData g = items \<and>
      single_active (modelLoader g) \<and>
      item_id ` set items \<subseteq> dom (modelStates (modelLoader g)) \<and>
      (items = [] \<longrightarrow> activeModelId (modelLoader g) = None) \<and>
      (items \<noteq> [] \<longrightarrow> 0 \<le> currentIndex g \<and> currentIndex g < int (length items) \<and>
         activeModelId (modelLoader g) = Some (item_id (items ! nat (currentIndex g)))))"

definition example_session :: gallery where
  \<comment> \<open>the third item is activated, then one frame of 1/60 s passes\<close>
  "example_session = run [SwitchTo 0 2, Frame (1 / 60) 16] gallery_of_three"

definition opacityCurrent :: "model_loader \<Rightarrow> string \<Rightarrow> real option" where
  "opacityCurrent s k = map_option currentOpacity (modelStates s k)"

definition opacity_ok :: "model_state \<Rightarrow> bool" where
  "opacity_ok st =
     (0 \<le> currentOpacity st \<and> currentOpacity st \<le> 1 \<and>
      0 \<le> targetOpacity st \<and> targetOpacity st \<le> 1)"

definition opacities_in_range :: "model_loader \<Rightarrow> bool" where
  "opacities_in_range s = (\<forall>k st. modelStates s k = Some st \<longrightarrow> opacity_ok st)"

fun frame_delta_ok :: "gallery_call \<Rightarrow> bool" where
  \<comment> \<open>a frame whose time delta keeps the interpolation factor \<open>delta * 3\<close> within 0..1\<close>
  "frame_delta_ok (Frame delta now) = (0 \<le> delta \<and> delta \<le> 1 / 3)"
| "frame_delta_ok _ = True"

definition advance :: "real \<Rightarrow> real list \<Rightarrow> model_loader \<Rightarrow> model_loader" where
  \<comment> \<open>\<open>update\<close> applied once per entry of \<open>nows\<close>, always with the time step \<open>delta\<close>\<close>
  "advance delta nows s = foldl (\<lambda>s now. update delta now s) s nows"

subsection \<open>Drags\<close>

fun dragFrames :: "real \<Rightarrow> (real \<times> real \<times> real) list \<Rightarrow> model_loader \<Rightarrow> model_loader" where
  \<comment> \<open>a drag in progress: every sample \<open>(now, clientX, clientY)\<close> is a \<open>mousemove\<close>
      followed by one frame at time \<open>now\<close>\<close>
  "dragFrames delta [] s = s"
| "dragFrames delta ((now, clientX, clientY) # rest) s =
     dragFrames delta rest (update delta now (onMouseMove clientX clientY s))"


fun samples_exceed_x ::
  "real \<Rightarrow> real \<Rightarrow> real \<Rightarrow> real \<Rightarrow> (real \<times> real \<times> real) list \<Rightarrow> bool" where
  \<comment> \<open>the horizontal movement of every sample, measured from the previous pointer
      position \<open>lx\<close> and scaled by the sensitivity, is beyond the clamp \<open>ms\<close> in the
      direction \<open>d\<close> (1 or -1); the vertical movement is free\<close>
  "samples_exceed_x sens ms d lx [] = True"
| "samples_exceed_x sens ms d lx ((now, x, y) # rest) =
     (ms < d * ((x - lx) * sens) \<and> samples_exceed_x sens ms d x rest)"

fun samples_exceed_y ::
  "real \<Rightarrow> real \<Rightarrow> real \<Rightarrow> real \<Rightarrow> (real \<times> real \<times> real) list \<Rightarrow> bool" where
  \<comment> \<open>the same for the vertical movement; the horizontal movement is free\<close>
  "samples_exceed_y sens ms d ly [] = True"
| "samples_exceed_y sens ms d ly ((now, x, y) # rest) =
     (ms < d * ((y - ly) * sens) \<and> samples_exceed_y sens ms d y rest)"

definition tiltOf :: "model_loader \<Rightarrow> string \<Rightarrow> real option" where
  \<comment> \<open>\<open>rotation.x\<close> of the scene object of a model\<close>
  "tiltOf s k =
     (case modelStates s k of None \<Rightarrow> None | Some st \<Rightarrow> map_option rotation_x (modelObject st))"

definition yawOf :: "model_loader \<Rightarrow> string \<Rightarrow> real option" where
  \<comment> \<open>\<open>rotation.y\<close> of the scene object of a model\<close>
  "yawOf s k =
     (case modelStates s k of None \<Rightarrow> None | Some st \<Rightarrow> map_option rotation_y (modelObject st))"

definition idleAngle :: "model_loader \<Rightarrow> string \<Rightarrow> real option" where
  \<comment> \<open>the angle the idle rotation has accumulated for a model\<close>
  "idleAngle s k = map_option (\<lambda>st. auto_currentRotationY (autoRot st)) (modelStates s k)"

definition drag_ready :: "string \<Rightarrow> model_manual_rotation \<Rightarrow> model_loader \<Rightarrow> bool" where
  \<comment> \<open>a drag is in progress on the active model \<open>a\<close>, which is in the scene\<close>
  "drag_ready a base s =
     (manual_enabled (manualRotation s) \<and> isDragging (manualRotation s) \<and>
      manual_rotateActiveOnly (manualRotation s) \<and> activeModelId s = Some a \<and>
      (\<exists>st. modelStates s a = Some st \<and> modelObject st \<noteq> None \<and> manualRot st = base))"

fun diagonal_drag :: "nat \<Rightarrow> nat \<Rightarrow> (real \<times> real \<times> real) list" where
  \<comment> \<open>\<open>n\<close> samples, 16 ms apart, each 10 pixels to the right of and below the one
      before; the first is sample number \<open>i + 1\<close>\<close>
  "diagonal_drag i 0 = []"
| "diagonal_drag i (Suc n) =
     (16 * real (Suc i), 10 * real (Suc i), 10 * real (Suc i)) # diagonal_drag (Suc i) n"

fun horizontal_drag :: "nat \<Rightarrow> nat \<Rightarrow> (real \<times> real \<times> real) list" where
  \<comment> \<open>\<open>n\<close> samples, 16 ms apart, each 10 pixels to the right of the one before, all at
      height 0\<close>
  "horizontal_drag i 0 = []"
| "horizontal_drag i (Suc n) =
     (16 * real (Suc i), 10 * real (Suc i), 0) # horizontal_drag (Suc i) n"

definition dragging_loader :: model_loader where
  \<comment> \<open>the loader of the three-item gallery after the left button went down at (0, 0)\<close>
  "dragging_loader = onMouseDown 0 0 0 (modelLoader gallery_of_three)"

definition released_loader :: model_loader where
  \<comment> \<open>one move of 100 pixels each way, then the button is released\<close>
  "released_loader = onMouseUp (onMouseMove 100 100 dragging_loader)"


section \<open>Camera transitions are not interrupted\<close>

lemma animateCameraTo_busy: "isAnimatingCamera c \<Longrightarrow> animateCameraTo dest look dur now c = c"
  by (simp add: animateCameraTo_def)

lemma at_most_one_frame:
  "controls_reachable c \<Longrightarrow>
     length (frames c) \<le> 1 \<and> (frames c \<noteq> [] \<longrightarrow> isAnimatingCamera c)"
proof (induction rule: controls_reachable.induct)
  case (constructed v cam)
  show ?case by (simp add: Controls_new_def)
next
  case (requested c dest look dur now)
  then show ?case by (auto simp: animateCameraTo_def)
next
  case (frame c now c')
  show ?case
  proof (cases "frames c")
    case Nil
    with frame show ?thesis by (simp add: runFrame_def)
  next
    case (Cons tr rest)
    with frame.IH have busy: "isAnimatingCamera c" and rest: "rest = []" by simp_all
    from frame.hyps(2) Cons have "animate tr now (c\<lparr> frames := rest \<rparr>) = Some c'"
      by (simp add: runFrame_def)
    with busy rest show ?thesis
      by (auto simp: animate_def Let_def split: if_splits)
  qed
next
  case (speed c sp)
  then show ?case by (simp add: setAutoRotateSpeed_def)
next
  case (toggled c)
  then show ?case by (simp add: toggleAutoRotate_def Let_def split: controls_version.splits)
next
  case (moved c p q)
  then show ?case by simp
qed

lemma pending_frame_sets_flag:
  "controls_reachable c \<Longrightarrow> frames c \<noteq> [] \<Longrightarrow> isAnimatingCamera c"
  by (simp add: at_most_one_frame)

text \<open>
  C1. In every reachable state of the camera rig in which a transition is in flight (its
  frame callback is pending), \<open>animateCameraTo\<close> returns the state as it was: the pending
  transition keeps its destination position, destination look-at, start time and
  duration, and no second transition is queued.
\<close>

theorem C1_transition_in_flight_not_interrupted:
  assumes "controls_reachable c" and "frames c \<noteq> []"
  shows "animateCameraTo dest look dur now c = c"
  using assms by (simp add: pending_frame_sets_flag animateCameraTo_busy)

theorem C1_transition_in_flight_witness:
  "controls_reachable (animateCameraTo (1, 1, 8) (0, 0, 0) 1500 0 (Controls_new OrbitZoom (0, 0, 5)))
   \<and> frames (animateCameraTo (1, 1, 8) (0, 0, 0) 1500 0 (Controls_new OrbitZoom (0, 0, 5))) \<noteq> []
   \<and> animateCameraTo (6, 1, 8) (6, 0, 0) 1000 10
        (animateCameraTo (1, 1, 8) (0, 0, 0) 1500 0 (Controls_new OrbitZoom (0, 0, 5)))
      = animateCameraTo (1, 1, 8) (0, 0, 0) 1500 0 (Controls_new OrbitZoom (0, 0, 5))"
proof -
  let ?c = "animateCameraTo (1, 1, 8) (0, 0, 0) 1500 0 (Controls_new OrbitZoom (0, 0, 5))"
  have r: "controls_reachable ?c"
    by (rule controls_reachable.requested, rule controls_reachable.constructed)
  have f: "frames ?c \<noteq> []"
    by (simp add: animateCameraTo_def Controls_new_def)
  from r f C1_transition_in_flight_not_interrupted [OF r f, of "(6, 1, 8)" "(6, 0, 0)" 1000 10]
  show ?thesis by simp
qed

section \<open>Facts about loading and activation\<close>

lemmas loading_defs =
  Gallery3D_init_def loadModels_def loadModel_def processModel_def initial_model_state_def
  ModelLoader_new_def calculateSceneLayout_def createSpotlightForModel_def
  example_settings_def item_loaded_def item_failed_def

lemmas activation_defs = showModel_def showNew_def hideCurrent_def activateSpotlight_def

lemma currentIndex_init: "currentIndex (Gallery3D_init v st items w) = 0"
  by (simp add: Gallery3D_init_def loadModels_def Let_def split: prod.splits list.splits)

lemma galleryData_init: "galleryData (Gallery3D_init v st items w) = items"
  by (simp add: Gallery3D_init_def loadModels_def Let_def split: prod.splits list.splits)

lemma switchToItem_accepted:
  assumes "i \<noteq> currentIndex g" "0 \<le> i" "i < int (length (galleryData g))"
  shows "currentIndex (switchToItem now i g) = i"
    and "galleryData (switchToItem now i g) = galleryData g"
    and "modelLoader (switchToItem now i g) =
           showModel (item_id (galleryData g ! nat i)) i (modelLoader g)"
  using assms by (simp_all add: switchToItem_def Let_def)

lemma showModel_active: "activeModelId (showModel k i s) = Some k"
  by (simp add: showModel_def showNew_def activateSpotlight_def Let_def split: option.splits)

lemma modelStates_activateSpotlight: "modelStates (activateSpotlight k s) = modelStates s"
  by (simp add: activateSpotlight_def)

lemma hideCurrent_keeps_object:
  "modelStates s k = Some st \<Longrightarrow>
   \<exists>st'. modelStates (hideCurrent s) k = Some st' \<and> modelObject st' = modelObject st
         \<and> currentOpacity st' = currentOpacity st"
  by (auto simp: hideCurrent_def split: option.splits)

lemma showModel_target:
  assumes "modelStates s k = Some st"
  shows "\<exists>st'. modelStates (showModel k i s) k = Some st' \<and> targetOpacity st' = 1 \<and> visible st'
            \<and> currentOpacity st' = currentOpacity st
            \<and> modelObject st' = map_option (\<lambda>obj. obj\<lparr> obj_visible := True \<rparr>) (modelObject st)"
proof -
  from hideCurrent_keeps_object [OF assms] obtain st1 where
    "modelStates (hideCurrent s) k = Some st1" "modelObject st1 = modelObject st"
    "currentOpacity st1 = currentOpacity st" by blast
  then show ?thesis
    by (simp add: showModel_def showNew_def modelStates_activateSpotlight Let_def)
qed

subsection \<open>A model without scene object is skipped by the frame update\<close>

lemma fadeModel_no_object: "modelObject st = None \<Longrightarrow> fadeModel delta st = st"
  by (simp add: fadeModel_def)

lemma applyManual_no_object:
  "modelStates s k = Some st \<Longrightarrow> modelObject st = None \<Longrightarrow>
   modelStates (applyManualRotationToModel k' s) k = Some st"
  by (auto simp: applyManualRotationToModel_def split: option.splits)

lemma applyAuto_no_object:
  "modelStates s k = Some st \<Longrightarrow> modelObject st = None \<Longrightarrow>
   modelStates (applyAutoRotationToModel k' delta s) k = Some st"
  by (auto simp: applyAutoRotationToModel_def Let_def split: option.splits)

lemma updateManual_no_object:
  "modelStates s k = Some st \<Longrightarrow> modelObject st = None \<Longrightarrow>
   modelStates (updateManualRotation delta s) k = Some st"
  by (auto simp: updateManualRotation_def applyManualRotation_def applyManual_no_object
      split: option.splits)

lemma updateAuto_no_object:
  "modelStates s k = Some st \<Longrightarrow> modelObject st = None \<Longrightarrow>
   modelStates (updateAutoRotation delta s) k = Some st"
  by (auto simp: updateAutoRotation_def Let_def applyAuto_no_object split: option.splits)

lemma update_no_object:
  "modelStates s k = Some st \<Longrightarrow> modelObject st = None \<Longrightarrow>
   modelStates (update delta now s) k = Some st"
  by (simp add: update_def Let_def animateSpotlights_def updateManual_no_object
      updateAuto_no_object fadeModel_no_object)


section \<open>Activation requests that are discarded\<close>

text \<open>
  C5. An activation request for the current index, or for an index outside the configured
  items, returns the gallery state as it was, through \<open>switchToItem\<close>, through
  \<open>navigateToItem\<close> and through the scroll handler's \<open>onItemChange\<close> alike: current
  index, model states, spotlights, camera rig and the log of interface notifications are
  all unchanged, nothing is queued, and the call has no failing branch.
\<close>

theorem C5_same_or_out_of_range_discarded:
  assumes "i = currentIndex g \<or> i < 0 \<or> i \<ge> int (length (galleryData g))"
  shows "switchToItem now i g = g \<and> navigateToItem now i g = g \<and> onItemChange now i g = g"
  using assms by (auto simp: switchToItem_def navigateToItem_def onItemChange_def)

theorem C5_discarded_witness:
  "(0 = currentIndex gallery_of_three \<or> (0::int) < 0
      \<or> 0 \<ge> int (length (galleryData gallery_of_three)))
   \<and> switchToItem 7 0 gallery_of_three = gallery_of_three
   \<and> navigateToItem 7 0 gallery_of_three = gallery_of_three
   \<and> onItemChange 7 0 gallery_of_three = gallery_of_three
   \<and> (3 = currentIndex gallery_of_three \<or> (3::int) < 0
      \<or> 3 \<ge> int (length (galleryData gallery_of_three)))
   \<and> switchToItem 7 3 gallery_of_three = gallery_of_three"
proof -
  have h0: "0 = currentIndex gallery_of_three \<or> (0::int) < 0
      \<or> 0 \<ge> int (length (galleryData gallery_of_three))"
    by (simp add: gallery_of_three_def currentIndex_init)
  have h3: "3 = currentIndex gallery_of_three \<or> (3::int) < 0
      \<or> 3 \<ge> int (length (galleryData gallery_of_three))"
    by (simp add: gallery_of_three_def galleryData_init)
  from h0 h3
    C5_same_or_out_of_range_discarded [OF h0, of 7]
    C5_same_or_out_of_range_discarded [OF h3, of 7]
  show ?thesis by blast
qed


section \<open>Activating a model whose asset failed to load\<close>

text \<open>
  C2 (as the code behaves). \<open>loadModel\<close> stores the state of an item before its asset is
  requested, and neither \<open>switchToItem\<close> nor \<open>showModel\<close> asks whether the asset arrived.
  An activation request for an index in range, other than the current one, whose model
  has no scene object is therefore carried out: the current index and the active model id
  become that item, and its state gets target opacity 1 and is marked visible. What is
  skipped is only what needs the scene object: the state keeps its current opacity and
  the frame update leaves it as it is.
\<close>

theorem C2_failed_model_is_still_activated:
  assumes "0 \<le> i" and "i < int (length (galleryData g))" and "i \<noteq> currentIndex g"
    and "modelStates (modelLoader g) (item_id (galleryData g ! nat i)) = Some st"
    and "modelObject st = None"
  shows "currentIndex (switchToItem now i g) = i
       \<and> activeModelId (modelLoader (switchToItem now i g)) = Some (item_id (galleryData g ! nat i))
       \<and> (\<exists>st'. modelStates (modelLoader (switchToItem now i g)) (item_id (galleryData g ! nat i))
                   = Some st'
                \<and> targetOpacity st' = 1 \<and> visible st' \<and> modelObject st' = None
                \<and> currentOpacity st' = currentOpacity st
                \<and> modelStates (update delta now' (modelLoader (switchToItem now i g)))
                     (item_id (galleryData g ! nat i)) = Some st')"
proof -
  let ?k = "item_id (galleryData g ! nat i)"
  have l: "modelLoader (switchToItem now i g) = showModel ?k i (modelLoader g)"
    using assms by (simp add: switchToItem_accepted)
  from showModel_target [OF assms(4), of i] assms(5) obtain st' where
    s: "modelStates (showModel ?k i (modelLoader g)) ?k = Some st'" "targetOpacity st' = 1"
       "visible st'" "currentOpacity st' = currentOpacity st" "modelObject st' = None"
    by auto
  from s(1) s(5)
  have "modelStates (update delta now' (showModel ?k i (modelLoader g))) ?k = Some st'"
    by (rule update_no_object)
  with s l assms show ?thesis
    by (simp add: switchToItem_accepted showModel_active)
qed

lemma failed_item_state:
  "modelStates (modelLoader gallery_one_failed) ''b'' =
     Some (initial_model_state (item_failed ''b'') 1)"
  by (simp add: gallery_one_failed_def loading_defs activation_defs Let_def)

theorem C2_failed_model_witness:
  "(0::int) \<le> 1 \<and> 1 < int (length (galleryData gallery_one_failed))
   \<and> 1 \<noteq> currentIndex gallery_one_failed
   \<and> modelStates (modelLoader gallery_one_failed) (item_id (galleryData gallery_one_failed ! nat 1))
       = Some (initial_model_state (item_failed ''b'') 1)
   \<and> modelObject (initial_model_state (item_failed ''b'') 1) = None
   \<and> currentIndex (switchToItem 0 1 gallery_one_failed) = 1
   \<and> activeModelId (modelLoader (switchToItem 0 1 gallery_one_failed)) = Some ''b''"
proof -
  have d: "galleryData gallery_one_failed = [item_loaded ''a'', item_failed ''b'']"
    by (simp add: gallery_one_failed_def galleryData_init)
  have k: "item_id (galleryData gallery_one_failed ! nat 1) = ''b''"
    by (simp add: d item_failed_def)
  have h1: "(0::int) \<le> 1" by simp
  have h2: "1 < int (length (galleryData gallery_one_failed))" by (simp add: d)
  have h3: "1 \<noteq> currentIndex gallery_one_failed"
    by (simp add: gallery_one_failed_def currentIndex_init)
  have h4: "modelStates (modelLoader gallery_one_failed)
              (item_id (galleryData gallery_one_failed ! nat 1))
            = Some (initial_model_state (item_failed ''b'') 1)"
    using k failed_item_state by simp
  have h5: "modelObject (initial_model_state (item_failed ''b'') 1) = None"
    by (simp add: initial_model_state_def item_failed_def)
  from C2_failed_model_is_still_activated [OF h1 h2 h3 h4 h5, of 0] h1 h2 h3 h4 h5 k
  show ?thesis by simp
qed

text \<open>
  The claim as the specification words it, that such a request is ignored, fails on a
  gallery of two items of which the second did not load: after \<open>switchToItem(1)\<close> the
  current index is 1 and the active model is the failed one.
\<close>

theorem C2_ignored_counterexample:
  "map_option modelObject (modelStates (modelLoader gallery_one_failed) ''b'') = Some None
   \<and> currentIndex gallery_one_failed = 0
   \<and> currentIndex (switchToItem 0 1 gallery_one_failed) = 1
   \<and> activeModelId (modelLoader (switchToItem 0 1 gallery_one_failed)) = Some ''b''
   \<and> switchToItem 0 1 gallery_one_failed \<noteq> gallery_one_failed"
proof -
  have d: "galleryData gallery_one_failed = [item_loaded ''a'', item_failed ''b'']"
    by (simp add: gallery_one_failed_def galleryData_init)
  have c: "currentIndex gallery_one_failed = 0"
    by (simp add: gallery_one_failed_def currentIndex_init)
  have o: "map_option modelObject (modelStates (modelLoader gallery_one_failed) ''b'') = Some None"
    by (simp add: failed_item_state initial_model_state_def item_failed_def)
  have i: "currentIndex (switchToItem 0 1 gallery_one_failed) = 1"
    by (simp add: switchToItem_accepted c d)
  have a: "activeModelId (modelLoader (switchToItem 0 1 gallery_one_failed)) = Some ''b''"
    by (simp add: switchToItem_accepted c d showModel_active item_failed_def)
  from i c have "switchToItem 0 1 gallery_one_failed \<noteq> gallery_one_failed"
    by (metis zero_neq_one)
  with o c i a show ?thesis by simp
qed


section \<open>Zero-valued spotlight settings\<close>

text \<open>
  C10. \<open>updateSpotlightConfig\<close> keeps every existing light, and a field of the
  configuration that is 0 (intensity, distance, angle, penumbra or decay) leaves that
  property of the light as it was, because the field is merged with \<open>||\<close> and 0 is falsy.
\<close>

theorem C10_zero_setting_leaves_lights_unchanged:
  assumes "spotlights s k = Some sd"
  shows "\<exists>sd'. spotlights (updateSpotlightConfig config s) k = Some sd'
      \<and> (new_intensity config = Some 0 \<longrightarrow> intensity (light sd') = intensity (light sd))
      \<and> (new_distance config = Some 0 \<longrightarrow> distance (light sd') = distance (light sd))
      \<and> (new_angle config = Some 0 \<longrightarrow> angle (light sd') = angle (light sd))
      \<and> (new_penumbra config = Some 0 \<longrightarrow> penumbra (light sd') = penumbra (light sd))
      \<and> (new_decay config = Some 0 \<longrightarrow> decay (light sd') = decay (light sd))"
  using assms
  by (auto simp: updateSpotlightConfig_def Let_def or_number_def split: option.splits)

theorem C10_zero_setting_witness:
  "spotlights loader_with_light ''a'' =
     Some \<lparr> light = \<lparr> intensity = 2, distance = 30, angle = pi / 6, penumbra = 0.3, decay = 1.5,
                      color = HSL 0 0.3 0.9 \<rparr>,
            originalIntensity = 2, currentIntensity = 2, targetIntensity = 2 \<rparr>
   \<and> new_intensity zero_config = Some 0 \<and> new_distance zero_config = Some 0
   \<and> new_angle zero_config = Some 0 \<and> new_penumbra zero_config = Some 0
   \<and> new_decay zero_config = Some 0
   \<and> map_option (\<lambda>sd. intensity (light sd))
        (spotlights (updateSpotlightConfig zero_config loader_with_light) ''a'') = Some 2
   \<and> map_option (\<lambda>sd. distance (light sd))
        (spotlights (updateSpotlightConfig zero_config loader_with_light) ''a'') = Some 30
   \<and> map_option (\<lambda>sd. angle (light sd))
        (spotlights (updateSpotlightConfig zero_config loader_with_light) ''a'') = Some (pi / 6)
   \<and> map_option (\<lambda>sd. penumbra (light sd))
        (spotlights (updateSpotlightConfig zero_config loader_with_light) ''a'') = Some 0.3
   \<and> map_option (\<lambda>sd. decay (light sd))
        (spotlights (updateSpotlightConfig zero_config loader_with_light) ''a'') = Some 1.5"
proof -
  let ?sd = "\<lparr> light = \<lparr> intensity = 2, distance = 30, angle = pi / 6, penumbra = 0.3,
                decay = 1.5, color = HSL 0 0.3 0.9 \<rparr>,
              originalIntensity = 2, currentIntensity = 2, targetIntensity = 2 \<rparr>"
  have h: "spotlights loader_with_light ''a'' = Some ?sd"
    by (simp add: loader_with_light_def createSpotlightForModel_def ModelLoader_new_def Let_def)
  have z: "new_intensity zero_config = Some 0" "new_distance zero_config = Some 0"
    "new_angle zero_config = Some 0" "new_penumbra zero_config = Some 0"
    "new_decay zero_config = Some 0"
    by (simp_all add: zero_config_def)
  from C10_zero_setting_leaves_lights_unchanged [OF h, of zero_config] z
  obtain sd' where
    "spotlights (updateSpotlightConfig zero_config loader_with_light) ''a'' = Some sd'"
    "intensity (light sd') = 2" "distance (light sd') = 30" "angle (light sd') = pi / 6"
    "penumbra (light sd') = 0.3" "decay (light sd') = 1.5"
    by auto
  with h z show ?thesis by simp
qed

section \<open>The frame update and the fade\<close>

lemma same_fade_refl: "same_fade st st" by (simp add: same_fade_def)

lemma same_fade_trans: "same_fade a b \<Longrightarrow> same_fade b c \<Longrightarrow> same_fade a c"
  by (auto simp: same_fade_def)

lemma same_fade_fadeModel:
  "same_fade st st1 \<Longrightarrow> same_fade (fadeModel delta st) (fadeModel delta st1)"
  by (auto simp: same_fade_def fadeModel_def Let_def split: option.splits)

lemma applyManual_same_fade:
  "modelStates s k = Some st \<Longrightarrow>
   \<exists>st1. modelStates (applyManualRotationToModel k' s) k = Some st1 \<and> same_fade st st1"
  by (auto simp: applyManualRotationToModel_def same_fade_def split: option.splits)

lemma applyAuto_same_fade:
  "modelStates s k = Some st \<Longrightarrow>
   \<exists>st1. modelStates (applyAutoRotationToModel k' delta s) k = Some st1 \<and> same_fade st st1"
  by (auto simp: applyAutoRotationToModel_def same_fade_def Let_def split: option.splits)

lemma applyManualRotation_same_fade:
  assumes "modelStates s k = Some st"
  shows "\<exists>st1. modelStates (applyManualRotation s) k = Some st1 \<and> same_fade st st1"
  using assms applyManual_same_fade [OF assms] same_fade_refl [of st]
  by (auto simp: applyManualRotation_def split: option.splits)

lemma updateManual_same_fade:
  assumes "modelStates s k = Some st"
  shows "\<exists>st1. modelStates (updateManualRotation delta s) k = Some st1 \<and> same_fade st st1"
  unfolding updateManualRotation_def
  by (rule applyManualRotation_same_fade) (simp add: assms)

lemma updateAuto_same_fade:
  assumes "modelStates s k = Some st"
  shows "\<exists>st1. modelStates (updateAutoRotation delta s) k = Some st1 \<and> same_fade st st1"
  using assms applyAuto_same_fade [OF assms] same_fade_refl [of st]
  by (auto simp: updateAutoRotation_def split: option.splits)

lemma update_fadeModel:
  assumes "modelStates s k = Some st"
  shows "\<exists>st2. same_fade st st2 \<and> modelStates (update delta now s) k = Some (fadeModel delta st2)"
proof -
  define s1 where "s1 = (if manual_enabled (manualRotation s) then updateManualRotation delta s else s)"
  define s2 where "s2 = (if auto_enabled (autoRotation s1) \<and> \<not> isDragging (manualRotation s1)
                then updateAutoRotation delta s1 else s1)"
  have "\<exists>st1. modelStates s1 k = Some st1 \<and> same_fade st st1"
    using assms updateManual_same_fade [OF assms] same_fade_refl [of st]
    by (cases "manual_enabled (manualRotation s)") (simp_all add: s1_def)
  then obtain st1 where a: "modelStates s1 k = Some st1" "same_fade st st1" by blast
  have "\<exists>st2. modelStates s2 k = Some st2 \<and> same_fade st1 st2"
    using a(1) updateAuto_same_fade [OF a(1)] same_fade_refl [of st1]
    by (cases "auto_enabled (autoRotation s1) \<and> \<not> isDragging (manualRotation s1)")
       (simp_all add: s2_def)
  then obtain st2 where b: "modelStates s2 k = Some st2" "same_fade st1 st2" by blast
  from a(2) b(2) have "same_fade st st2" by (rule same_fade_trans)
  moreover have "update delta now s = animateSpotlights delta now
      (s2\<lparr> modelStates := (\<lambda>k. map_option (fadeModel delta) (modelStates s2 k)) \<rparr>)"
    unfolding update_def Let_def s1_def s2_def by (rule refl)
  then have "modelStates (update delta now s) k = Some (fadeModel delta st2)"
    using b(1) by (simp add: animateSpotlights_def)
  ultimately show ?thesis by blast
qed

lemma update_fades:
  assumes "modelStates s k = Some st"
  shows "\<exists>st'. modelStates (update delta now s) k = Some st' \<and> same_fade (fadeModel delta st) st'"
  using update_fadeModel [OF assms, of delta now] same_fade_fadeModel by blast

lemma applyManualRotationToModel_dom:
  "modelStates s k = None \<Longrightarrow> modelStates (applyManualRotationToModel k' s) k = None"
  by (auto simp: applyManualRotationToModel_def split: option.splits)

lemma applyAutoRotationToModel_dom:
  "modelStates s k = None \<Longrightarrow> modelStates (applyAutoRotationToModel k' delta s) k = None"
  by (auto simp: applyAutoRotationToModel_def Let_def split: option.splits)

lemma update_none:
  "modelStates s k = None \<Longrightarrow> modelStates (update delta now s) k = None"
  by (auto simp: update_def Let_def animateSpotlights_def updateManualRotation_def
      applyManualRotation_def updateAutoRotation_def applyManualRotationToModel_dom
      applyAutoRotationToModel_dom split: option.splits)

lemma applyManualRotationToModel_active:
  "activeModelId (applyManualRotationToModel k s) = activeModelId s"
  by (simp add: applyManualRotationToModel_def split: option.splits)

lemma applyAutoRotationToModel_active:
  "activeModelId (applyAutoRotationToModel k delta s) = activeModelId s"
  by (simp add: applyAutoRotationToModel_def Let_def split: option.splits)

lemma update_active: "activeModelId (update delta now s) = activeModelId s"
  by (simp add: update_def Let_def animateSpotlights_def updateManualRotation_def
      applyManualRotation_def updateAutoRotation_def applyManualRotationToModel_active
      applyAutoRotationToModel_active split: option.splits)

lemma fadeModel_target: "targetOpacity (fadeModel delta st) = targetOpacity st"
  by (simp add: fadeModel_def Let_def split: option.splits)

lemma update_target:
  "map_option targetOpacity (modelStates (update delta now s) k) =
   map_option targetOpacity (modelStates s k)"
proof (cases "modelStates s k")
  case None
  then show ?thesis by (simp add: update_none)
next
  case (Some st)
  from update_fades [OF Some, of delta now] Some show ?thesis
    by (auto simp: same_fade_def fadeModel_target)
qed

subsection \<open>Only the active model has target opacity 1\<close>

lemma single_active_at_most_one: "single_active s \<Longrightarrow> at_most_one_active s"
  unfolding single_active_def at_most_one_active_def by (metis option.inject)

lemma hideCurrent_clears:
  assumes "single_active s" and "\<forall>a. activeModelId s = Some a \<longrightarrow> a \<noteq> []"
    and "modelStates (hideCurrent s) k = Some st"
  shows "targetOpacity st \<noteq> 1"
  using assms
  by (auto simp: single_active_def hideCurrent_def split: option.splits if_splits)

lemma showNew_single:
  assumes "\<forall>k st. modelStates s k = Some st \<longrightarrow> targetOpacity st = 1 \<longrightarrow> k = new"
  shows "single_active (showNew new s)"
  using assms
  by (auto simp: single_active_def showNew_def Let_def split: option.splits if_splits)

lemma showModel_single:
  assumes "single_active s" and "\<forall>a. activeModelId s = Some a \<longrightarrow> a \<noteq> []"
  shows "single_active (showModel new i s)"
proof -
  have "\<forall>k st. modelStates (hideCurrent s) k = Some st \<longrightarrow> targetOpacity st = 1 \<longrightarrow> k = new"
    using hideCurrent_clears [OF assms] by blast
  then have "single_active (showNew new (hideCurrent s))" by (rule showNew_single)
  then show ?thesis
    by (simp add: showModel_def single_active_def activateSpotlight_def)
qed

lemma update_single: "single_active s \<Longrightarrow> single_active (update delta now s)"
proof -
  assume a: "single_active s"
  show ?thesis
    unfolding single_active_def
  proof (intro allI impI)
    fix k st
    assume h: "modelStates (update delta now s) k = Some st" "targetOpacity st = 1"
    from h update_target [of delta now s k]
    obtain st0 where "modelStates s k = Some st0" "targetOpacity st0 = 1"
      by (cases "modelStates s k") auto
    with a show "activeModelId (update delta now s) = Some k"
      by (simp add: single_active_def update_active)
  qed
qed

subsection \<open>The state after loading\<close>

lemma createSpotlight_states [simp]:
  "modelStates (createSpotlightForModel k i s) = modelStates s"
  "activeModelId (createSpotlightForModel k i s) = activeModelId s"
  by (simp_all add: createSpotlightForModel_def Let_def)

lemma initial_target: "targetOpacity (initial_model_state item i) = (if i = 0 then 1 else 0)"
  by (simp add: initial_model_state_def split: prod.splits)

lemma loadModel_states:
  "modelStates (loadModel w item i s) k =
     (if k = item_id item
      then (if asset_loads item
            then map_option (\<lambda>st. st) (modelStates (loadModel w item i s) k)
            else Some (initial_model_state item i))
      else modelStates s k)"
  by (auto simp: loadModel_def processModel_def Let_def)

lemma loadModel_item_target:
  "\<exists>st. modelStates (loadModel w item i s) (item_id item) = Some st
      \<and> targetOpacity st = (if i = 0 then 1 else 0)"
  by (auto simp: loadModel_def processModel_def Let_def initial_target)

lemma loadModel_other:
  "k \<noteq> item_id item \<Longrightarrow> modelStates (loadModel w item i s) k = modelStates s k"
  by (auto simp: loadModel_def processModel_def Let_def)

lemma loadModel_active:
  "activeModelId (loadModel w item i s) =
     (if asset_loads item \<and> i = 0 then Some (item_id item) else activeModelId s)"
  by (auto simp: loadModel_def processModel_def Let_def)

lemma loadModel_later:
  assumes "0 < i" and "first_only k0 s"
  shows "first_only k0 (loadModel w item i s)"
  unfolding first_only_def
proof (intro conjI allI impI)
  fix k st
  assume h: "modelStates (loadModel w item i s) k = Some st" "targetOpacity st = 1"
  show "k = k0"
  proof (cases "k = item_id item")
    case True
    with loadModel_item_target [of w item i s] h assms(1) show ?thesis by auto
  next
    case False
    with h assms(2) show ?thesis by (auto simp: loadModel_other first_only_def)
  qed
next
  from assms show "activeModelId (loadModel w item i s) = None \<or>
      activeModelId (loadModel w item i s) = Some k0"
    by (auto simp: loadModel_active first_only_def)
qed

lemma loadModel_first:
  assumes "modelStates s = Map.empty" and "activeModelId s = None"
  shows "first_only (item_id item) (loadModel w item 0 s)"
  unfolding first_only_def
proof (intro conjI allI impI)
  fix k st
  assume h: "modelStates (loadModel w item 0 s) k = Some st" "targetOpacity st = 1"
  show "k = item_id item"
  proof (rule ccontr)
    assume "k \<noteq> item_id item"
    with h assms show False by (simp add: loadModel_other)
  qed
next
  from assms show "activeModelId (loadModel w item 0 s) = None \<or>
      activeModelId (loadModel w item 0 s) = Some (item_id item)"
    by (auto simp: loadModel_active)
qed

lemma loadEach_later:
  "0 < i \<Longrightarrow> first_only k0 s \<Longrightarrow> first_only k0 (fst (loadEach w i items (s, evs)))"
proof (induction items arbitrary: i s evs)
  case Nil
  then show ?case by simp
next
  case (Cons item rest)
  from Cons.prems have "first_only k0 (loadModel w item i s)" by (rule loadModel_later)
  with Cons.IH [of "Suc i"] show ?case by simp
qed

lemma loadModel_keeps:
  "modelStates s k \<noteq> None \<Longrightarrow> modelStates (loadModel w item i s) k \<noteq> None"
  using loadModel_item_target [of w item i s] by (cases "k = item_id item") (auto simp: loadModel_other)

lemma loadEach_keeps:
  "modelStates s k \<noteq> None \<Longrightarrow> modelStates (fst (loadEach w i items (s, evs))) k \<noteq> None"
proof (induction items arbitrary: i s evs)
  case Nil
  then show ?case by simp
next
  case (Cons item rest)
  from Cons.prems have "modelStates (loadModel w item i s) k \<noteq> None" by (rule loadModel_keeps)
  with Cons.IH show ?case by simp
qed

lemma loadEach_all:
  "item \<in> set items \<Longrightarrow>
   modelStates (fst (loadEach w i items (s, evs))) (item_id item) \<noteq> None"
proof (induction items arbitrary: i s evs)
  case Nil
  then show ?case by simp
next
  case (Cons x rest)
  show ?case
  proof (cases "item = x")
    case True
    have "modelStates (loadModel w x i s) (item_id x) \<noteq> None"
      using loadModel_item_target [of w x i s] by auto
    then show ?thesis using True by (simp add: loadEach_keeps)
  next
    case False
    with Cons show ?thesis by simp
  qed
qed

lemma showModel_first_only:
  assumes "first_only k0 s"
  shows "single_active (showModel k0 i s)"
proof -
  have "\<forall>k st. modelStates (hideCurrent s) k = Some st \<longrightarrow> targetOpacity st = 1 \<longrightarrow> k = k0"
    using assms by (auto simp: first_only_def hideCurrent_def split: option.splits if_splits)
  then have "single_active (showNew k0 (hideCurrent s))" by (rule showNew_single)
  then show ?thesis
    by (simp add: showModel_def single_active_def activateSpotlight_def)
qed

lemma showModel_dom: "dom (modelStates (showModel new i s)) = dom (modelStates s)"
  by (auto simp: showModel_def showNew_def hideCurrent_def activateSpotlight_def Let_def
      split: option.splits if_splits)

lemma update_dom: "dom (modelStates (update delta now s)) = dom (modelStates s)"
proof -
  have "\<And>k. modelStates (update delta now s) k = None \<longleftrightarrow> modelStates s k = None"
    using update_target [of delta now s] by (metis option.map_disc_iff)
  then show ?thesis by (auto simp: dom_def)
qed

lemma fresh_loader_empty:
  "modelStates (calculateSceneLayout n (fresh_loader st)) = Map.empty"
  "activeModelId (calculateSceneLayout n (fresh_loader st)) = None"
  by (simp_all add: fresh_loader_def calculateSceneLayout_def ModelLoader_new_def
      updateSpotlightConfig_def Let_def split: option.splits)

lemma modelLoader_init:
  "modelLoader (Gallery3D_init v st items w) =
     (case items of
        [] \<Rightarrow> fst (loadEach w 0 items (calculateSceneLayout (length items) (fresh_loader st), []))
      | first # _ \<Rightarrow> showModel (item_id first) 0
          (fst (loadEach w 0 items (calculateSceneLayout (length items) (fresh_loader st), []))))"
  by (simp add: Gallery3D_init_def loadModels_def Let_def fresh_loader_def
      split: prod.splits list.splits)

lemma init_single: "single_active (modelLoader (Gallery3D_init v st items w))"
proof (cases items)
  case Nil
  then show ?thesis
    by (simp add: modelLoader_init fresh_loader_empty single_active_def)
next
  case (Cons first rest)
  let ?s0 = "calculateSceneLayout (length items) (fresh_loader st)"
  have "first_only (item_id first) (loadModel w first 0 ?s0)"
    by (rule loadModel_first) (simp_all add: fresh_loader_empty)
  then have "first_only (item_id first) (fst (loadEach w 0 items (?s0, [])))"
    using loadEach_later [of "Suc 0" "item_id first" "loadModel w first 0 ?s0" w rest]
    by (simp add: Cons)
  then show ?thesis
    using Cons by (simp add: modelLoader_init showModel_first_only)
qed

lemma init_active:
  "activeModelId (modelLoader (Gallery3D_init v st items w)) =
     (case items of [] \<Rightarrow> None | first # _ \<Rightarrow> Some (item_id first))"
  by (cases items) (simp_all add: modelLoader_init showModel_active fresh_loader_empty)

lemma init_states:
  assumes "item \<in> set items"
  shows "item_id item \<in> dom (modelStates (modelLoader (Gallery3D_init v st items w)))"
proof (cases items)
  case Nil
  with assms show ?thesis by simp
next
  case (Cons first rest)
  let ?s0 = "calculateSceneLayout (length items) (fresh_loader st)"
  have "modelStates (fst (loadEach w 0 items (?s0, []))) (item_id item) \<noteq> None"
    using assms by (rule loadEach_all)
  then have "item_id item \<in> dom (modelStates (fst (loadEach w 0 items (?s0, []))))"
    by (simp only: domIff not_False_eq_True)
  then have "item_id item \<in> dom (modelStates
      (showModel (item_id first) 0 (fst (loadEach w 0 items (?s0, [])))))"
    by (simp only: showModel_dom)
  then show ?thesis
    by (simp only: modelLoader_init Cons list.case)
qed

subsection \<open>The invariant of a session\<close>

lemma session_inv_init: "session_inv items (Gallery3D_init v st items w)"
proof -
  have "item_id ` set items \<subseteq> dom (modelStates (modelLoader (Gallery3D_init v st items w)))"
    using init_states by blast
  then show ?thesis
    by (cases items)
       (simp_all add: session_inv_def galleryData_init init_single init_active currentIndex_init)
qed

lemma session_inv_active_nonempty:
  assumes "session_inv items g" and "\<forall>item \<in> set items. item_id item \<noteq> []"
  shows "\<forall>a. activeModelId (modelLoader g) = Some a \<longrightarrow> a \<noteq> []"
proof (cases items)
  case Nil
  with assms show ?thesis by (simp add: session_inv_def)
next
  case (Cons first rest)
  with assms(1) have c: "0 \<le> currentIndex g" "currentIndex g < int (length items)"
    "activeModelId (modelLoader g) = Some (item_id (items ! nat (currentIndex g)))"
    by (simp_all add: session_inv_def)
  from c(1,2) have "items ! nat (currentIndex g) \<in> set items" by simp
  with assms(2) c(3) show ?thesis by auto
qed

lemma session_inv_log: "session_inv items g \<Longrightarrow> session_inv items (g\<lparr> ui_log := evs \<rparr>)"
  by (simp add: session_inv_def)

lemma session_inv_switch:
  assumes "session_inv items g" and "\<forall>item \<in> set items. item_id item \<noteq> []"
  shows "session_inv items (switchToItem now i g)"
proof (cases "i \<noteq> currentIndex g \<and> 0 \<le> i \<and> i < int (length (galleryData g))")
  case False
  then have "switchToItem now i g = g" by (auto simp: switchToItem_def)
  with assms(1) show ?thesis by simp
next
  case True
  then have acc: "i \<noteq> currentIndex g" "0 \<le> i" "i < int (length (galleryData g))" by simp_all
  from assms(1) have d: "galleryData g = items" by (simp add: session_inv_def)
  from acc d obtain first rest where ne: "items = first # rest" by (cases items) auto
  let ?k = "item_id (items ! nat i)"
  have l: "modelLoader (switchToItem now i g) = showModel ?k i (modelLoader g)"
    using switchToItem_accepted(3) [OF acc] d by simp
  have "single_active (modelLoader g)" using assms(1) by (simp add: session_inv_def)
  then have "single_active (showModel ?k i (modelLoader g))"
    using session_inv_active_nonempty [OF assms] by (rule showModel_single)
  moreover have "item_id ` set items \<subseteq> dom (modelStates (modelLoader g))"
    using assms(1) by (simp add: session_inv_def)
  ultimately show ?thesis
    using acc d l switchToItem_accepted(1,2) [OF acc]
    by (simp add: session_inv_def showModel_active showModel_dom ne)
qed

lemma session_inv_navigate:
  assumes "session_inv items g" and "\<forall>item \<in> set items. item_id item \<noteq> []"
  shows "session_inv items (navigateToItem now i g)"
proof -
  have "\<And>evs. session_inv items (switchToItem now i (g\<lparr> ui_log := evs \<rparr>))"
    using session_inv_log [OF assms(1)] assms(2) by (rule session_inv_switch)
  with assms(1) show ?thesis
    by (simp add: navigateToItem_def Let_def)
qed

lemma session_inv_frame:
  assumes "session_inv items g"
  shows "session_inv items (Gallery3D_animate delta now g)"
  using assms
  by (simp add: session_inv_def Gallery3D_animate_def update_single update_active update_dom)

lemma session_inv_perform:
  assumes "session_inv items g" and "\<forall>item \<in> set items. item_id item \<noteq> []"
  shows "session_inv items (perform c g)"
  using assms
  by (cases c) (simp_all add: session_inv_switch session_inv_navigate session_inv_frame)

lemma session_inv_run:
  assumes "session_inv items g" and "\<forall>item \<in> set items. item_id item \<noteq> []"
  shows "session_inv items (run calls g)"
  using assms(1) unfolding run_def
proof (induction calls arbitrary: g)
  case Nil
  then show ?case by simp
next
  case (Cons c calls)
  from Cons.prems assms(2) have "session_inv items (perform c g)" by (rule session_inv_perform)
  then show ?case using Cons.IH by simp
qed

section \<open>At most one model is active\<close>

lemma hideCurrent_target:
  "activeModelId s = Some a \<Longrightarrow> a \<noteq> [] \<Longrightarrow> a \<in> dom (modelStates s) \<Longrightarrow>
   opacityTarget (hideCurrent s) a = Some 0"
  by (auto simp: hideCurrent_def opacityTarget_def)

lemma hideCurrent_none_active:
  assumes "single_active s" and "\<forall>a. activeModelId s = Some a \<longrightarrow> a \<noteq> []"
  shows "at_most_one_active (hideCurrent s)"
  using hideCurrent_clears [OF assms] by (auto simp: at_most_one_active_def)

lemma showModel_other:
  "k \<noteq> new \<Longrightarrow> modelStates (showModel new i s) k = modelStates (hideCurrent s) k"
  by (simp add: showModel_def showNew_def activateSpotlight_def Let_def split: option.splits)

lemma showModel_new_target:
  "new \<in> dom (modelStates s) \<Longrightarrow> opacityTarget (showModel new i s) new = Some 1"
  using showModel_target [of s new _ i] by (auto simp: opacityTarget_def)

text \<open>
  C3 (as the code behaves). Let every item of the configuration have a non-empty
  identifier (identifiers become the \<open>id\<close> attributes of the page's elements). In a
  session that starts from the state \<open>init()\<close> leaves, with the first item active, and
  goes through any sequence of activation requests and frames, at most one model state
  has target opacity 1. Every activation that is carried out is \<open>showModel\<close>, which first
  sets the target opacity of the model that was active to 0 (after which no state has
  target opacity 1) and only then sets that of the new model to 1.
\<close>

theorem C3_single_active_model:
  assumes "\<forall>item \<in> set items. item_id item \<noteq> []"
  shows "at_most_one_active (modelLoader (run calls (Gallery3D_init v st items w)))
       \<and> (0 \<le> i \<and> i < int (length items)
            \<and> i \<noteq> currentIndex (run calls (Gallery3D_init v st items w)) \<longrightarrow>
          (let g = run calls (Gallery3D_init v st items w);
               prev = item_id (items ! nat (currentIndex g));
               new = item_id (items ! nat i)
           in activeModelId (modelLoader g) = Some prev
            \<and> modelLoader (switchToItem now i g) =
                 activateSpotlight new (showNew new (hideCurrent (modelLoader g)))
            \<and> opacityTarget (hideCurrent (modelLoader g)) prev = Some 0
            \<and> at_most_one_active (hideCurrent (modelLoader g))
            \<and> opacityTarget (modelLoader (switchToItem now i g)) new = Some 1
            \<and> (prev \<noteq> new \<longrightarrow> opacityTarget (modelLoader (switchToItem now i g)) prev = Some 0)))"
proof -
  define g where "g = run calls (Gallery3D_init v st items w)"
  have inv: "session_inv items g"
    unfolding g_def using session_inv_init assms by (rule session_inv_run)
  then have one: "at_most_one_active (modelLoader g)"
    by (simp add: session_inv_def single_active_at_most_one)
  have step: "?thesis" if acc: "0 \<le> i" "i < int (length items)" "i \<noteq> currentIndex g"
  proof -
    define prev where "prev = item_id (items ! nat (currentIndex g))"
    define new where "new = item_id (items ! nat i)"
    from acc have ne: "items \<noteq> []" by auto
    from inv have d: "galleryData g = items" by (simp add: session_inv_def)
    from inv ne have cur: "0 \<le> currentIndex g" "currentIndex g < int (length items)"
      and act: "activeModelId (modelLoader g) = Some prev"
      by (simp_all add: session_inv_def prev_def)
    from inv have sub: "item_id ` set items \<subseteq> dom (modelStates (modelLoader g))"
      by (simp add: session_inv_def)
    from cur have "items ! nat (currentIndex g) \<in> set items" by simp
    with sub assms have p: "prev \<in> dom (modelStates (modelLoader g))" "prev \<noteq> []"
      by (auto simp: prev_def)
    from acc have "items ! nat i \<in> set items" by simp
    with sub have n: "new \<in> dom (modelStates (modelLoader g))" by (auto simp: new_def)
    have l: "modelLoader (switchToItem now i g) = showModel new i (modelLoader g)"
      using switchToItem_accepted(3) [of i g now] acc d by (simp add: new_def)
    have h0: "opacityTarget (hideCurrent (modelLoader g)) prev = Some 0"
      using act p by (simp add: hideCurrent_target)
    have h1: "at_most_one_active (hideCurrent (modelLoader g))"
      using inv session_inv_active_nonempty [OF inv assms]
      by (intro hideCurrent_none_active) (simp_all add: session_inv_def)
    have n1: "opacityTarget (modelLoader (switchToItem now i g)) new = Some 1"
      using n by (simp add: l showModel_new_target)
    have p0: "prev \<noteq> new \<Longrightarrow> opacityTarget (modelLoader (switchToItem now i g)) prev = Some 0"
      using h0 by (simp add: l opacityTarget_def showModel_other)
    from one act l h0 h1 n1 p0 show ?thesis
      unfolding Let_def g_def [symmetric] prev_def [symmetric] new_def [symmetric]
      by (simp add: showModel_def)
  qed
  show ?thesis
  proof (cases "0 \<le> i \<and> i < int (length items) \<and> i \<noteq> currentIndex g")
    case True
    then show ?thesis using step by blast
  next
    case False
    with one show ?thesis unfolding g_def by blast
  qed
qed

lemma currentIndex_animate [simp]: "currentIndex (Gallery3D_animate delta now g) = currentIndex g"
  by (simp add: Gallery3D_animate_def)

lemma galleryData_animate [simp]: "galleryData (Gallery3D_animate delta now g) = galleryData g"
  by (simp add: Gallery3D_animate_def)

lemma example_session_index: "currentIndex example_session = 2"
  by (simp add: example_session_def run_def gallery_of_three_def switchToItem_accepted
      currentIndex_init galleryData_init)

theorem C3_single_active_witness:
  "item_id (item_loaded ''a'') \<noteq> [] \<and> item_id (item_loaded ''b'') \<noteq> []
   \<and> item_id (item_loaded ''c'') \<noteq> []
   \<and> at_most_one_active (modelLoader example_session)
   \<and> (0::int) \<le> 1 \<and> (1::int) < 3 \<and> 1 \<noteq> currentIndex example_session
   \<and> activeModelId (modelLoader example_session) = Some ''c''
   \<and> opacityTarget (hideCurrent (modelLoader example_session)) ''c'' = Some 0
   \<and> opacityTarget (modelLoader (switchToItem 30 1 example_session)) ''b'' = Some 1
   \<and> opacityTarget (modelLoader (switchToItem 30 1 example_session)) ''c'' = Some 0"
proof -
  let ?items = "[item_loaded ''a'', item_loaded ''b'', item_loaded ''c'']"
  have ids: "\<forall>item \<in> set ?items. item_id item \<noteq> []"
    by (simp add: item_loaded_def)
  have e: "example_session =
      run [SwitchTo 0 2, Frame (1 / 60) 16] (Gallery3D_init OrbitZoom example_settings ?items 1024)"
    by (simp add: example_session_def gallery_of_three_def)
  have acc: "(0::int) \<le> 1 \<and> 1 < int (length ?items) \<and> 1 \<noteq> currentIndex example_session"
    by (simp add: example_session_index)
  from C3_single_active_model [OF ids, of "[SwitchTo 0 2, Frame (1 / 60) 16]" OrbitZoom
      example_settings 1024 1 30] acc
  show ?thesis
    unfolding e [symmetric] Let_def
    by (auto simp: example_session_index item_loaded_def)
qed

text \<open>
  Without the condition on the identifiers the statement fails. \<open>showModel\<close> tests
  \<open>this.activeModelId\<close> for truthiness, and the empty string is falsy: a model whose
  identifier is empty is not hidden when another one is shown. In the gallery of two
  loaded items whose first identifier is empty, one activation of the second item leaves
  both models with target opacity 1.
\<close>

theorem C3_empty_identifier_counterexample:
  "currentIndex empty_id_gallery = 0
   \<and> activeModelId (modelLoader empty_id_gallery) = Some []
   \<and> opacityTarget (modelLoader (run [SwitchTo 0 1] empty_id_gallery)) [] = Some 1
   \<and> opacityTarget (modelLoader (run [SwitchTo 0 1] empty_id_gallery)) ''b'' = Some 1
   \<and> \<not> at_most_one_active (modelLoader (run [SwitchTo 0 1] empty_id_gallery))"
proof -
  let ?items = "[item_loaded [], item_loaded ''b'']"
  let ?g = "Gallery3D_init OrbitZoom example_settings ?items 1024"
  let ?s = "modelLoader (switchToItem 0 1 ?g)"
  have l: "?s = showModel ''b'' 1 (modelLoader ?g)"
    using switchToItem_accepted(3) [of 1 ?g 0]
    by (simp add: currentIndex_init galleryData_init item_loaded_def)
  have act: "activeModelId (modelLoader ?g) = Some []"
    by (simp add: init_active item_loaded_def)
  have d: "[] \<in> dom (modelStates (modelLoader ?g))" "''b'' \<in> dom (modelStates (modelLoader ?g))"
    using session_inv_init [of ?items OrbitZoom example_settings 1024]
    by (simp_all add: session_inv_def item_loaded_def)
  have "opacityTarget (modelLoader ?g) [] = Some 1"
    using showModel_new_target [of "[]" _ 0]
      loadEach_all [of "item_loaded []" ?items 1024 0]
    by (simp add: modelLoader_init item_loaded_def domIff del: loadEach.simps)
  with l act have a: "opacityTarget ?s [] = Some 1"
    by (simp add: showModel_other hideCurrent_def opacityTarget_def)
  have b: "opacityTarget ?s ''b'' = Some 1"
    using d(2) by (simp add: l showModel_new_target)
  from a b have "\<not> at_most_one_active ?s"
    unfolding at_most_one_active_def opacityTarget_def by fastforce
  with a b act show ?thesis
    by (simp add: empty_id_gallery_def run_def currentIndex_init)
qed


section \<open>The opacity range\<close>

lemma lerp_upper:
  assumes "0 \<le> t" "t \<le> 1" "x \<le> b" "y \<le> b"
  shows "lerp x y t \<le> b"
proof -
  have "(1 - t) * x \<le> (1 - t) * b" using assms by (intro mult_left_mono) simp_all
  moreover have "t * y \<le> t * b" using assms by (intro mult_left_mono) simp_all
  ultimately have "lerp x y t \<le> (1 - t) * b + t * b" by (simp add: lerp_def)
  then show ?thesis by (simp add: algebra_simps)
qed

lemma lerp_lower:
  assumes "0 \<le> t" "t \<le> 1" "a \<le> x" "a \<le> y"
  shows "a \<le> lerp x y t"
proof -
  have "(1 - t) * a \<le> (1 - t) * x" using assms by (intro mult_left_mono) simp_all
  moreover have "t * a \<le> t * y" using assms by (intro mult_left_mono) simp_all
  ultimately have "(1 - t) * a + t * a \<le> lerp x y t" by (simp add: lerp_def)
  then show ?thesis by (simp add: algebra_simps)
qed

lemma fadeModel_opacity:
  "currentOpacity (fadeModel delta st) =
     (case modelObject st of
        None \<Rightarrow> currentOpacity st
      | Some obj \<Rightarrow>
          if lerp (currentOpacity st) (targetOpacity st) (delta * 3) < 0.01 \<and> targetOpacity st = 0
          then 0 else lerp (currentOpacity st) (targetOpacity st) (delta * 3))"
  by (auto simp: fadeModel_def Let_def split: option.splits)

lemma fadeModel_range:
  assumes "0 \<le> delta" "delta \<le> 1 / 3" "opacity_ok st"
  shows "opacity_ok (fadeModel delta st)"
proof -
  have t: "0 \<le> delta * 3" "delta * 3 \<le> 1" using assms by simp_all
  from assms(3) have "0 \<le> lerp (currentOpacity st) (targetOpacity st) (delta * 3)"
    "lerp (currentOpacity st) (targetOpacity st) (delta * 3) \<le> 1"
    using lerp_lower [OF t, of 0] lerp_upper [OF t, of _ 1] by (simp_all add: opacity_ok_def)
  with assms(3) show ?thesis
    by (auto simp: opacity_ok_def fadeModel_opacity fadeModel_target split: option.splits)
qed

lemma same_fade_ok: "same_fade st st2 \<Longrightarrow> opacity_ok st \<Longrightarrow> opacity_ok st2"
  by (simp add: same_fade_def opacity_ok_def)

lemma update_range:
  assumes "0 \<le> delta" "delta \<le> 1 / 3" "opacities_in_range s"
  shows "opacities_in_range (update delta now s)"
  unfolding opacities_in_range_def
proof (intro allI impI)
  fix k st'
  assume h: "modelStates (update delta now s) k = Some st'"
  then have "modelStates s k \<noteq> None" using update_none [of s k delta now] by auto
  then obtain st where st: "modelStates s k = Some st" by auto
  from update_fadeModel [OF st, of delta now] h obtain st2 where
    "same_fade st st2" "st' = fadeModel delta st2" by auto
  moreover from st assms(3) have "opacity_ok st" by (simp add: opacities_in_range_def)
  ultimately show "opacity_ok st'"
    using assms(1,2) by (auto intro: fadeModel_range same_fade_ok)
qed

lemma showModel_range:
  assumes "opacities_in_range s"
  shows "opacities_in_range (showModel new i s)"
  using assms
  by (auto simp: opacities_in_range_def opacity_ok_def showModel_def showNew_def hideCurrent_def
      activateSpotlight_def Let_def split: option.splits if_splits)

lemma initial_ok: "opacity_ok (initial_model_state item i)"
  by (simp add: opacity_ok_def initial_model_state_def split: prod.splits)

lemma loadModel_range:
  assumes "opacities_in_range s"
  shows "opacities_in_range (loadModel w item i s)"
  using assms initial_ok [of item i]
  by (auto simp: opacities_in_range_def opacity_ok_def loadModel_def processModel_def Let_def
      split: if_splits)

lemma loadEach_range:
  "opacities_in_range s \<Longrightarrow> opacities_in_range (fst (loadEach w i items (s, evs)))"
proof (induction items arbitrary: i s evs)
  case Nil
  then show ?case by simp
next
  case (Cons item rest)
  from Cons.prems have "opacities_in_range (loadModel w item i s)" by (rule loadModel_range)
  with Cons.IH show ?case by simp
qed

lemma init_range: "opacities_in_range (modelLoader (Gallery3D_init v st items w))"
proof -
  have "opacities_in_range (calculateSceneLayout (length items) (fresh_loader st))"
    by (simp add: opacities_in_range_def fresh_loader_empty)
  then have "opacities_in_range
      (fst (loadEach w 0 items (calculateSceneLayout (length items) (fresh_loader st), [])))"
    by (rule loadEach_range)
  then show ?thesis
    by (cases items) (simp_all add: modelLoader_init showModel_range del: loadEach.simps)
qed

lemma perform_range:
  assumes "frame_delta_ok c" "opacities_in_range (modelLoader g)"
  shows "opacities_in_range (modelLoader (perform c g))"
proof (cases c)
  case (SwitchTo now i)
  with assms(2) show ?thesis
    by (simp add: switchToItem_def Let_def showModel_range)
next
  case (NavigateTo now i)
  with assms(2) show ?thesis
    by (simp add: navigateToItem_def switchToItem_def Let_def showModel_range)
next
  case (Frame delta now)
  with assms show ?thesis
    by (simp add: Gallery3D_animate_def update_range)
qed

text \<open>
  C8 (as the code behaves). In every session, from the state \<open>init()\<close> leaves through any
  sequence of activations and frames, the current and the target opacity of every model
  state stay in the closed interval from 0 to 1, provided every frame has a time delta
  between 0 and 1/3 second: the fade is \<open>lerp(current, target, delta * 3)\<close> and the
  factor is not clamped.
\<close>

theorem C8_opacities_stay_in_unit_interval:
  assumes "list_all frame_delta_ok calls"
  shows "opacities_in_range (modelLoader (run calls (Gallery3D_init v st items w)))"
proof -
  have "opacities_in_range (modelLoader g) \<Longrightarrow> opacities_in_range (modelLoader (run calls g))" for g
    using assms unfolding run_def
  proof (induction calls arbitrary: g)
    case Nil
    then show ?case by simp
  next
    case (Cons c calls)
    then have "opacities_in_range (modelLoader (perform c g))"
      by (simp add: perform_range)
    with Cons show ?case by simp
  qed
  with init_range show ?thesis by blast
qed

lemma update_opacity:
  assumes "modelStates s k = Some st" and "modelObject st \<noteq> None"
  shows "opacityCurrent (update delta now s) k =
     Some (if lerp (currentOpacity st) (targetOpacity st) (delta * 3) < 0.01 \<and> targetOpacity st = 0
           then 0 else lerp (currentOpacity st) (targetOpacity st) (delta * 3))"
proof -
  from update_fadeModel [OF assms(1), of delta now] obtain st2 where
    "same_fade st st2" "modelStates (update delta now s) k = Some (fadeModel delta st2)" by blast
  with assms(2) show ?thesis
    by (auto simp: opacityCurrent_def fadeModel_opacity same_fade_def split: option.splits)
qed

lemma second_item_loaded:
  "\<exists>st. modelStates (modelLoader gallery_of_three) ''b'' = Some st
      \<and> currentOpacity st = 0 \<and> targetOpacity st = 0 \<and> modelObject st \<noteq> None"
  by (simp add: gallery_of_three_def loading_defs activation_defs Let_def)

lemma second_item_shown:
  "\<exists>st. modelStates (modelLoader (switchToItem 0 1 gallery_of_three)) ''b'' = Some st
      \<and> currentOpacity st = 0 \<and> targetOpacity st = 1 \<and> modelObject st \<noteq> None"
proof -
  from second_item_loaded obtain st where
    st: "modelStates (modelLoader gallery_of_three) ''b'' = Some st" "currentOpacity st = 0"
      "modelObject st \<noteq> None" by blast
  have "modelLoader (switchToItem 0 1 gallery_of_three) =
      showModel ''b'' 1 (modelLoader gallery_of_three)"
    using switchToItem_accepted(3) [of 1 gallery_of_three 0]
    by (simp add: gallery_of_three_def currentIndex_init galleryData_init item_loaded_def)
  with showModel_target [OF st(1), of 1] st(2,3) show ?thesis by auto
qed

text \<open>
  With a longer frame the claim fails: a frame of one second (the time delta is the real
  time since the previous frame) takes the opacity of a model that fades in from 0 to 3.
\<close>

theorem C8_long_frame_counterexample:
  "(0::real) \<le> 1
   \<and> opacityCurrent (modelLoader (run [SwitchTo 0 1, Frame 1 1000] gallery_of_three)) ''b'' = Some 3
   \<and> \<not> opacities_in_range (modelLoader (run [SwitchTo 0 1, Frame 1 1000] gallery_of_three))"
proof -
  let ?s = "modelLoader (switchToItem 0 1 gallery_of_three)"
  from second_item_shown obtain st where
    st: "modelStates ?s ''b'' = Some st" "currentOpacity st = 0" "targetOpacity st = 1"
      "modelObject st \<noteq> None" by blast
  have r: "modelLoader (run [SwitchTo 0 1, Frame 1 1000] gallery_of_three) = update 1 1000 ?s"
    by (simp add: run_def Gallery3D_animate_def)
  have c: "opacityCurrent (update 1 1000 ?s) ''b'' = Some 3"
    using update_opacity [OF st(1) st(4), of 1 1000] st(2,3) by (simp add: lerp_def)
  have "\<not> opacities_in_range (update 1 1000 ?s)"
  proof
    assume a: "opacities_in_range (update 1 1000 ?s)"
    from c obtain z where z: "modelStates (update 1 1000 ?s) ''b'' = Some z" "currentOpacity z = 3"
      by (auto simp: opacityCurrent_def)
    from a z(1) have "opacity_ok z" unfolding opacities_in_range_def by blast
    with z(2) show False by (simp add: opacity_ok_def)
  qed
  with c r show ?thesis by simp
qed

theorem C8_opacities_witness:
  "list_all frame_delta_ok [SwitchTo 0 2, Frame (1 / 60) 16]
   \<and> opacities_in_range (modelLoader example_session)"
proof -
  have h: "list_all frame_delta_ok [SwitchTo 0 2, Frame (1 / 60) 16]" by simp
  from h C8_opacities_stay_in_unit_interval [OF h, of OrbitZoom example_settings
      "[item_loaded ''a'', item_loaded ''b'', item_loaded ''c'']" 1024]
  show ?thesis by (simp add: example_session_def gallery_of_three_def)
qed


section \<open>Convergence of the fade\<close>

lemma advance_Cons: "advance delta (now # nows) s = advance delta nows (update delta now s)"
  by (simp add: advance_def)

lemma advance_snoc: "advance delta (nows @ [now]) s = update delta now (advance delta nows s)"
  by (simp add: advance_def)

lemma lerp_error: "lerp x y t - y = (1 - t) * (x - y)"
  by (simp add: lerp_def algebra_simps)

lemma update_fade_step:
  assumes "modelStates s k = Some st" and "modelObject st \<noteq> None"
  shows "\<exists>st'. modelStates (update delta now s) k = Some st' \<and> modelObject st' \<noteq> None
      \<and> targetOpacity st' = targetOpacity st
      \<and> currentOpacity st' =
          (if lerp (currentOpacity st) (targetOpacity st) (delta * 3) < 0.01 \<and> targetOpacity st = 0
           then 0 else lerp (currentOpacity st) (targetOpacity st) (delta * 3))
      \<and> (lerp (currentOpacity st) (targetOpacity st) (delta * 3) < 0.01 \<and> targetOpacity st = 0 \<longrightarrow>
           \<not> visible st' \<and> map_option obj_visible (modelObject st') = Some False
           \<and> map_option material_opacity (modelObject st') = Some 0)"
proof -
  from update_fadeModel [OF assms(1), of delta now] obtain st2 where
    s: "same_fade st st2" and u: "modelStates (update delta now s) k = Some (fadeModel delta st2)"
    by blast
  from s assms(2) obtain obj where o: "modelObject st2 = Some obj"
    by (auto simp: same_fade_def)
  from s have e: "targetOpacity st2 = targetOpacity st" "currentOpacity st2 = currentOpacity st"
    by (simp_all add: same_fade_def)
  show ?thesis
    unfolding u using o e
    by (auto simp: fadeModel_def Let_def)
qed

lemma fade_contracts:
  assumes "0 < delta" "delta \<le> 1 / 3"
    and "c' = (if lerp c t (delta * 3) < 0.01 \<and> t = 0 then 0 else lerp c t (delta * 3))"
  shows "\<bar>c' - t\<bar> \<le> (1 - delta * 3) * \<bar>c - t\<bar>"
proof -
  have q: "0 \<le> 1 - delta * 3" using assms by simp
  have "\<bar>lerp c t (delta * 3) - t\<bar> = (1 - delta * 3) * \<bar>c - t\<bar>"
    using q by (simp add: lerp_error abs_mult)
  moreover have "0 \<le> (1 - delta * 3) * \<bar>c - t\<bar>" using q by simp
  ultimately show ?thesis using assms(3) by (auto split: if_splits)
qed

lemma fade_between:
  assumes "0 < delta" "delta \<le> 1 / 3"
    and "c' = (if lerp c t (delta * 3) < 0.01 \<and> t = 0 then 0 else lerp c t (delta * 3))"
  shows "(c \<le> t \<longrightarrow> c \<le> c' \<and> c' \<le> t) \<and> (t \<le> c \<longrightarrow> t \<le> c' \<and> c' \<le> c)"
proof -
  have r: "0 \<le> delta * 3" "delta * 3 \<le> 1" using assms by simp_all
  have up: "c \<le> t \<Longrightarrow> c \<le> lerp c t (delta * 3) \<and> lerp c t (delta * 3) \<le> t"
    using lerp_lower [OF r, of c c t] lerp_upper [OF r, of c t t] by simp
  have down: "t \<le> c \<Longrightarrow> t \<le> lerp c t (delta * 3) \<and> lerp c t (delta * 3) \<le> c"
    using lerp_lower [OF r, of t c t] lerp_upper [OF r, of c c t] by simp
  show ?thesis
  proof (cases "lerp c t (delta * 3) < 0.01 \<and> t = 0")
    case False
    with assms(3) up down show ?thesis by auto
  next
    case True
    have "c' = 0" unfolding assms(3) by (rule if_P) (rule True)
    moreover from True have "t = 0" by blast
    ultimately show ?thesis by auto
  qed
qed

lemma advance_error:
  assumes "0 < delta" "delta \<le> 1 / 3"
  shows "modelStates s k = Some st \<Longrightarrow> modelObject st \<noteq> None \<Longrightarrow>
     \<exists>st'. modelStates (advance delta nows s) k = Some st' \<and> modelObject st' \<noteq> None
       \<and> targetOpacity st' = targetOpacity st
       \<and> \<bar>currentOpacity st' - targetOpacity st\<bar>
           \<le> (1 - delta * 3) ^ length nows * \<bar>currentOpacity st - targetOpacity st\<bar>"
proof (induction nows arbitrary: s st)
  case Nil
  then show ?case by (simp add: advance_def)
next
  case (Cons now nows)
  from update_fade_step [OF Cons.prems, of delta now] obtain st1 where
    a: "modelStates (update delta now s) k = Some st1" "modelObject st1 \<noteq> None"
       "targetOpacity st1 = targetOpacity st"
    and c: "currentOpacity st1 =
          (if lerp (currentOpacity st) (targetOpacity st) (delta * 3) < 0.01 \<and> targetOpacity st = 0
           then 0 else lerp (currentOpacity st) (targetOpacity st) (delta * 3))"
    by blast
  from fade_contracts [OF assms c]
  have e1: "\<bar>currentOpacity st1 - targetOpacity st\<bar>
      \<le> (1 - delta * 3) * \<bar>currentOpacity st - targetOpacity st\<bar>" .
  from Cons.IH [OF a(1,2)] a(3) obtain st' where
    b: "modelStates (advance delta nows (update delta now s)) k = Some st'" "modelObject st' \<noteq> None"
       "targetOpacity st' = targetOpacity st"
       "\<bar>currentOpacity st' - targetOpacity st\<bar>
           \<le> (1 - delta * 3) ^ length nows * \<bar>currentOpacity st1 - targetOpacity st\<bar>"
    by auto
  have q: "0 \<le> (1 - delta * 3) ^ length nows" using assms by simp
  from e1 q have "(1 - delta * 3) ^ length nows * \<bar>currentOpacity st1 - targetOpacity st\<bar>
      \<le> (1 - delta * 3) ^ length nows * ((1 - delta * 3) * \<bar>currentOpacity st - targetOpacity st\<bar>)"
    by (rule mult_left_mono)
  with b(4) have "\<bar>currentOpacity st' - targetOpacity st\<bar>
      \<le> (1 - delta * 3) ^ length (now # nows) * \<bar>currentOpacity st - targetOpacity st\<bar>"
    by (simp add: mult.assoc mult.commute mult.left_commute)
  with b(1,2,3) show ?case by (auto simp: advance_Cons)
qed

lemma geometric_below:
  fixes q e eps :: real
  assumes "0 \<le> q" "q < 1" "0 \<le> e" "0 < eps"
  shows "\<exists>N. \<forall>n\<ge>N. q ^ n * e < eps"
proof (cases "e = 0")
  case True
  with assms show ?thesis by simp
next
  case False
  with assms have pos: "0 < eps / e" by simp
  from real_arch_pow_inv [OF pos assms(2)] obtain N where N: "q ^ N < eps / e" by blast
  have "q ^ n * e < eps" if "N \<le> n" for n
  proof -
    from that assms have "q ^ n \<le> q ^ N" by (intro power_decreasing) simp_all
    with N have "q ^ n < eps / e" by simp
    with False assms show ?thesis by (simp add: pos_less_divide_eq)
  qed
  then show ?thesis by blast
qed

text \<open>
  C7 (as the code behaves). For a model state with a scene object and a fixed time step
  between 0 (excluded) and 1/3 second: for every positive epsilon there is a number of
  frames after which the current opacity stays within epsilon of the target; from each
  frame to the next the current opacity moves toward the target without passing it; and,
  for any time step, a frame whose interpolated opacity is under 0.01 while the target is
  0 sets the current opacity to exactly 0 and marks the state and its scene object
  invisible.
\<close>

theorem C7_fade_converges:
  assumes "modelStates s k = Some st" and "modelObject st \<noteq> None"
  shows "(0 < delta \<and> delta \<le> 1 / 3 \<longrightarrow>
           (\<forall>eps>0. \<exists>N. \<forall>nows. N \<le> length nows \<longrightarrow>
               (\<exists>c. opacityCurrent (advance delta nows s) k = Some c \<and>
                    \<bar>c - targetOpacity st\<bar> < eps))
         \<and> (\<forall>nows now. \<exists>c c'.
               opacityCurrent (advance delta nows s) k = Some c \<and>
               opacityCurrent (advance delta (nows @ [now]) s) k = Some c' \<and>
               (c \<le> targetOpacity st \<longrightarrow> c \<le> c' \<and> c' \<le> targetOpacity st) \<and>
               (targetOpacity st \<le> c \<longrightarrow> targetOpacity st \<le> c' \<and> c' \<le> c)))
       \<and> (\<forall>now. lerp (currentOpacity st) (targetOpacity st) (delta * 3) < 0.01
                \<and> targetOpacity st = 0 \<longrightarrow>
            (\<exists>st'. modelStates (update delta now s) k = Some st'
                 \<and> currentOpacity st' = 0 \<and> \<not> visible st'
                 \<and> map_option obj_visible (modelObject st') = Some False
                 \<and> map_option material_opacity (modelObject st') = Some 0))"
proof (intro conjI impI allI)
  fix eps :: real
  assume d: "0 < delta \<and> delta \<le> 1 / 3" and eps: "0 < eps"
  let ?e = "\<bar>currentOpacity st - targetOpacity st\<bar>"
  from d have "0 \<le> 1 - delta * 3" "1 - delta * 3 < 1" by simp_all
  from geometric_below [OF this _ eps, of ?e] obtain N where
    N: "\<forall>n\<ge>N. (1 - delta * 3) ^ n * ?e < eps" by auto
  have "\<exists>c. opacityCurrent (advance delta nows s) k = Some c \<and> \<bar>c - targetOpacity st\<bar> < eps"
    if "N \<le> length nows" for nows
  proof -
    from d advance_error [OF _ _ assms, of delta nows] obtain st' where
      "modelStates (advance delta nows s) k = Some st'"
      "\<bar>currentOpacity st' - targetOpacity st\<bar> \<le> (1 - delta * 3) ^ length nows * ?e"
      by auto
    moreover from N that have "(1 - delta * 3) ^ length nows * ?e < eps" by blast
    ultimately show ?thesis by (auto simp: opacityCurrent_def)
  qed
  then show "\<exists>N. \<forall>nows. N \<le> length nows \<longrightarrow>
      (\<exists>c. opacityCurrent (advance delta nows s) k = Some c \<and> \<bar>c - targetOpacity st\<bar> < eps)"
    by blast
next
  fix nows now
  assume d: "0 < delta \<and> delta \<le> 1 / 3"
  from d advance_error [OF _ _ assms, of delta nows] obtain stn where
    n: "modelStates (advance delta nows s) k = Some stn" "modelObject stn \<noteq> None"
       "targetOpacity stn = targetOpacity st"
    by auto
  from update_fade_step [OF n(1,2), of delta now] obtain st' where
    a: "modelStates (update delta now (advance delta nows s)) k = Some st'"
    and c: "currentOpacity st' =
          (if lerp (currentOpacity stn) (targetOpacity stn) (delta * 3) < 0.01 \<and> targetOpacity stn = 0
           then 0 else lerp (currentOpacity stn) (targetOpacity stn) (delta * 3))"
    by blast
  from d fade_between [OF _ _ c] n(3)
  have "(currentOpacity stn \<le> targetOpacity st \<longrightarrow>
          currentOpacity stn \<le> currentOpacity st' \<and> currentOpacity st' \<le> targetOpacity st) \<and>
        (targetOpacity st \<le> currentOpacity stn \<longrightarrow>
          targetOpacity st \<le> currentOpacity st' \<and> currentOpacity st' \<le> currentOpacity stn)"
    by simp
  with n(1) a show "\<exists>c c'.
               opacityCurrent (advance delta nows s) k = Some c \<and>
               opacityCurrent (advance delta (nows @ [now]) s) k = Some c' \<and>
               (c \<le> targetOpacity st \<longrightarrow> c \<le> c' \<and> c' \<le> targetOpacity st) \<and>
               (targetOpacity st \<le> c \<longrightarrow> targetOpacity st \<le> c' \<and> c' \<le> c)"
    by (simp add: opacityCurrent_def advance_snoc)
next
  fix now
  assume "lerp (currentOpacity st) (targetOpacity st) (delta * 3) < 0.01 \<and> targetOpacity st = 0"
  with update_fade_step [OF assms, of delta now]
  show "\<exists>st'. modelStates (update delta now s) k = Some st'
                 \<and> currentOpacity st' = 0 \<and> \<not> visible st'
                 \<and> map_option obj_visible (modelObject st') = Some False
                 \<and> map_option material_opacity (modelObject st') = Some 0"
    by auto
qed

lemma advance_long_frame:
  "modelStates s k = Some st \<Longrightarrow> modelObject st \<noteq> None \<Longrightarrow> targetOpacity st = 1 \<Longrightarrow>
     \<exists>st'. modelStates (advance 1 nows s) k = Some st' \<and> modelObject st' \<noteq> None
       \<and> targetOpacity st' = 1
       \<and> currentOpacity st' = 1 + (- 2) ^ length nows * (currentOpacity st - 1)"
proof (induction nows arbitrary: s st)
  case Nil
  then show ?case by (simp add: advance_def)
next
  case (Cons now nows)
  from update_fade_step [OF Cons.prems(1,2), of 1 now] Cons.prems(3) obtain st1 where
    a: "modelStates (update 1 now s) k = Some st1" "modelObject st1 \<noteq> None"
       "targetOpacity st1 = 1" "currentOpacity st1 = lerp (currentOpacity st) 1 3"
    by auto
  from Cons.IH [OF a(1,2,3)] a(4) show ?case
    by (auto simp: advance_Cons lerp_def algebra_simps)
qed

lemma first_item_hidden:
  "\<exists>st. modelStates (modelLoader (switchToItem 0 1 gallery_of_three)) ''a'' = Some st
      \<and> currentOpacity st = 1 \<and> targetOpacity st = 0 \<and> modelObject st \<noteq> None"
proof -
  have l: "modelLoader (switchToItem 0 1 gallery_of_three) =
      showModel ''b'' 1 (modelLoader gallery_of_three)"
    using switchToItem_accepted(3) [of 1 gallery_of_three 0]
    by (simp add: gallery_of_three_def currentIndex_init galleryData_init item_loaded_def)
  have "\<exists>st. modelStates (hideCurrent (modelLoader gallery_of_three)) ''a'' = Some st
      \<and> currentOpacity st = 1 \<and> targetOpacity st = 0 \<and> modelObject st \<noteq> None"
    by (simp add: gallery_of_three_def loading_defs activation_defs Let_def)
  then show ?thesis by (simp add: l showModel_other)
qed

text \<open>
  With a time step of one second the factor is 3 and the opacity of a model that fades in
  runs 0, 3, -3, 9: it passes the target, changes side at every frame and moves away.
\<close>

theorem C7_long_frame_counterexample:
  "opacityCurrent (modelLoader (switchToItem 0 1 gallery_of_three)) ''b'' = Some 0
   \<and> opacityTarget (modelLoader (switchToItem 0 1 gallery_of_three)) ''b'' = Some 1
   \<and> opacityCurrent (advance 1 [1000] (modelLoader (switchToItem 0 1 gallery_of_three))) ''b''
       = Some 3
   \<and> opacityCurrent (advance 1 [1000, 2000] (modelLoader (switchToItem 0 1 gallery_of_three))) ''b''
       = Some (- 3)
   \<and> opacityCurrent (advance 1 [1000, 2000, 3000] (modelLoader (switchToItem 0 1 gallery_of_three))) ''b''
       = Some 9"
proof -
  let ?s = "modelLoader (switchToItem 0 1 gallery_of_three)"
  from second_item_shown obtain st where
    st: "modelStates ?s ''b'' = Some st" "currentOpacity st = 0" "targetOpacity st = 1"
      "modelObject st \<noteq> None" by blast
  from advance_long_frame [OF st(1) st(4) st(3), of "[1000]"]
    advance_long_frame [OF st(1) st(4) st(3), of "[1000, 2000]"]
    advance_long_frame [OF st(1) st(4) st(3), of "[1000, 2000, 3000]"] st
  show ?thesis by (auto simp: opacityCurrent_def opacityTarget_def)
qed

theorem C7_fade_witness:
  "\<exists>st. modelStates (modelLoader (switchToItem 0 1 gallery_of_three)) ''a'' = Some st
      \<and> modelObject st \<noteq> None \<and> currentOpacity st = 1 \<and> targetOpacity st = 0
      \<and> (0::real) < 1 / 3 \<and> (1 / 3 :: real) \<le> 1 / 3
      \<and> lerp 1 0 (1 / 3 * 3) < 0.01
      \<and> (\<exists>N. \<forall>nows. N \<le> length nows \<longrightarrow>
            (\<exists>c. opacityCurrent (advance (1 / 3) nows (modelLoader (switchToItem 0 1 gallery_of_three))) ''a''
                   = Some c \<and> \<bar>c - 0\<bar> < 1 / 100))
      \<and> (\<exists>st'. modelStates (update (1 / 3) 1000 (modelLoader (switchToItem 0 1 gallery_of_three))) ''a''
                   = Some st'
               \<and> currentOpacity st' = 0 \<and> \<not> visible st'
               \<and> map_option obj_visible (modelObject st') = Some False
               \<and> map_option material_opacity (modelObject st') = Some 0)"
proof -
  let ?s = "modelLoader (switchToItem 0 1 gallery_of_three)"
  from first_item_hidden obtain st where
    st: "modelStates ?s ''a'' = Some st" "modelObject st \<noteq> None" "currentOpacity st = 1"
      "targetOpacity st = 0" by blast
  have d: "(0::real) < 1 / 3 \<and> (1 / 3 :: real) \<le> 1 / 3" by simp
  have l: "lerp 1 0 (1 / 3 * 3) < 0.01" by (simp add: lerp_def)
  note t = C7_fade_converges [OF st(1,2), of "1 / 3"]
  from t d have a: "\<forall>eps>0. \<exists>N. \<forall>nows. N \<le> length nows \<longrightarrow>
            (\<exists>c. opacityCurrent (advance (1 / 3) nows ?s) ''a'' = Some c \<and>
                 \<bar>c - targetOpacity st\<bar> < eps)"
    by blast
  have e: "(0::real) < 1 / 100" by simp
  from a e have "\<exists>N. \<forall>nows. N \<le> length nows \<longrightarrow>
            (\<exists>c. opacityCurrent (advance (1 / 3) nows ?s) ''a'' = Some c \<and>
                 \<bar>c - targetOpacity st\<bar> < 1 / 100)"
    by blast
  then have a': "\<exists>N. \<forall>nows. N \<le> length nows \<longrightarrow>
            (\<exists>c. opacityCurrent (advance (1 / 3) nows ?s) ''a'' = Some c \<and>
                 \<bar>c - 0\<bar> < 1 / 100)"
    by (simp only: st(4))
  from t have b: "\<forall>now. lerp (currentOpacity st) (targetOpacity st) (1 / 3 * 3) < 0.01
                \<and> targetOpacity st = 0 \<longrightarrow>
            (\<exists>st'. modelStates (update (1 / 3) now ?s) ''a'' = Some st'
                 \<and> currentOpacity st' = 0 \<and> \<not> visible st'
                 \<and> map_option obj_visible (modelObject st') = Some False
                 \<and> map_option material_opacity (modelObject st') = Some 0)"
    by blast
  have l': "lerp (currentOpacity st) (targetOpacity st) (1 / 3 * 3) < 0.01 \<and> targetOpacity st = 0"
    using l by (simp only: st(3,4) simp_thms)
  from b l' have b': "\<exists>st'. modelStates (update (1 / 3) 1000 ?s) ''a'' = Some st'
                 \<and> currentOpacity st' = 0 \<and> \<not> visible st'
                 \<and> map_option obj_visible (modelObject st') = Some False
                 \<and> map_option material_opacity (modelObject st') = Some 0"
    by blast
  from st d l a' b' show ?thesis by blast
qed


section \<open>Drag rotation in the loader\<close>

lemma manualRotation_applyManualToModel [simp]:
  "manualRotation (applyManualRotationToModel k s) = manualRotation s"
  by (simp add: applyManualRotationToModel_def split: option.splits)

lemma manualRotation_applyManual [simp]:
  "manualRotation (applyManualRotation s) = manualRotation s"
  by (simp add: applyManualRotation_def split: option.splits)

lemma manualRotation_applyAutoToModel [simp]:
  "manualRotation (applyAutoRotationToModel k delta s) = manualRotation s"
  by (simp add: applyAutoRotationToModel_def Let_def split: option.splits)

lemma manualRotation_updateAuto [simp]:
  "manualRotation (updateAutoRotation delta s) = manualRotation s"
  by (simp add: updateAutoRotation_def split: option.splits)

lemma manualRotation_update:
  "manualRotation (update delta now s) =
     (if manual_enabled (manualRotation s) then advanceManualRotation delta (manualRotation s)
      else manualRotation s)"
  by (simp add: update_def Let_def animateSpotlights_def updateManualRotation_def)

lemma clamp_exceeding:
  assumes "0 \<le> ms" and "d = 1 \<or> d = - 1" and "ms < d * v"
  shows "clamp_between (- ms) ms v = d * ms"
  using assms by (auto simp: clamp_between_def)

lemma drag_step_settings [simp]:
  "sensitivity (manualRotation (update delta now (onMouseMove x y s))) = sensitivity (manualRotation s)"
  "maxSpeed (manualRotation (update delta now (onMouseMove x y s))) = maxSpeed (manualRotation s)"
  "dampening (manualRotation (update delta now (onMouseMove x y s))) = dampening (manualRotation s)"
  "manual_enabled (manualRotation (update delta now (onMouseMove x y s))) = manual_enabled (manualRotation s)"
  "isDragging (manualRotation (update delta now (onMouseMove x y s))) = isDragging (manualRotation s)"
  by (simp_all add: manualRotation_update onMouseMove_def Let_def advanceManualRotation_def)

lemma drag_step_pointer:
  assumes "manual_enabled (manualRotation s)" and "isDragging (manualRotation s)"
  shows "lastMouseX (manualRotation (update delta now (onMouseMove x y s))) = x"
    and "lastMouseY (manualRotation (update delta now (onMouseMove x y s))) = y"
  using assms
  by (simp_all add: manualRotation_update onMouseMove_def Let_def advanceManualRotation_def)

lemma drag_step_yaw:
  assumes "manual_enabled (manualRotation s)" and "isDragging (manualRotation s)"
    and "0 \<le> maxSpeed (manualRotation s)" and "d = 1 \<or> d = - 1"
    and "maxSpeed (manualRotation s) < d * ((x - lastMouseX (manualRotation s)) * sensitivity (manualRotation s))"
  shows "targetRotationY (manualRotation (update delta now (onMouseMove x y s))) =
     targetRotationY (manualRotation s) + d * maxSpeed (manualRotation s) * dampening (manualRotation s)"
  using assms(1,2) clamp_exceeding [OF assms(3,4,5)]
  by (simp add: manualRotation_update onMouseMove_def Let_def advanceManualRotation_def)

lemma drag_step_tilt:
  assumes "manual_enabled (manualRotation s)" and "isDragging (manualRotation s)"
    and "0 \<le> maxSpeed (manualRotation s)" and "d = 1 \<or> d = - 1"
    and "maxSpeed (manualRotation s) < d * ((y - lastMouseY (manualRotation s)) * sensitivity (manualRotation s))"
  shows "targetRotationX (manualRotation (update delta now (onMouseMove x y s))) =
     targetRotationX (manualRotation s) + d * maxSpeed (manualRotation s) * dampening (manualRotation s)"
  using assms(1,2) clamp_exceeding [OF assms(3,4,5)]
  by (simp add: manualRotation_update onMouseMove_def Let_def advanceManualRotation_def)

lemma yaw_accumulates:
  "manual_enabled (manualRotation s) \<Longrightarrow> isDragging (manualRotation s) \<Longrightarrow>
   0 \<le> maxSpeed (manualRotation s) \<Longrightarrow> d = 1 \<or> d = - 1 \<Longrightarrow>
   samples_exceed_x (sensitivity (manualRotation s)) (maxSpeed (manualRotation s)) d
     (lastMouseX (manualRotation s)) samples \<Longrightarrow>
   targetRotationY (manualRotation (dragFrames delta samples s)) =
     targetRotationY (manualRotation s)
       + real (length samples) * (d * maxSpeed (manualRotation s) * dampening (manualRotation s))"
proof (induction samples arbitrary: s)
  case Nil
  then show ?case by simp
next
  case (Cons sample rest)
  obtain now x y where sample: "sample = (now, x, y)" by (cases sample) auto
  let ?s1 = "update delta now (onMouseMove x y s)"
  from Cons.prems(5) have ex:
    "maxSpeed (manualRotation s) < d * ((x - lastMouseX (manualRotation s)) * sensitivity (manualRotation s))"
    "samples_exceed_x (sensitivity (manualRotation s)) (maxSpeed (manualRotation s)) d x rest"
    by (simp_all add: sample)
  note m1 = drag_step_yaw [OF Cons.prems(1,2,3,4) ex(1)]
  note l1 = drag_step_pointer(1) [OF Cons.prems(1,2)]
  have "targetRotationY (manualRotation (dragFrames delta rest ?s1)) =
     targetRotationY (manualRotation ?s1)
       + real (length rest) * (d * maxSpeed (manualRotation ?s1) * dampening (manualRotation ?s1))"
    using Cons.prems ex(2) by (intro Cons.IH) (simp_all add: l1)
  with m1 show ?case
    by (simp add: sample algebra_simps)
qed

lemma tilt_accumulates:
  "manual_enabled (manualRotation s) \<Longrightarrow> isDragging (manualRotation s) \<Longrightarrow>
   0 \<le> maxSpeed (manualRotation s) \<Longrightarrow> d = 1 \<or> d = - 1 \<Longrightarrow>
   samples_exceed_y (sensitivity (manualRotation s)) (maxSpeed (manualRotation s)) d
     (lastMouseY (manualRotation s)) samples \<Longrightarrow>
   targetRotationX (manualRotation (dragFrames delta samples s)) =
     targetRotationX (manualRotation s)
       + real (length samples) * (d * maxSpeed (manualRotation s) * dampening (manualRotation s))"
proof (induction samples arbitrary: s)
  case Nil
  then show ?case by simp
next
  case (Cons sample rest)
  obtain now x y where sample: "sample = (now, x, y)" by (cases sample) auto
  let ?s1 = "update delta now (onMouseMove x y s)"
  from Cons.prems(5) have ex:
    "maxSpeed (manualRotation s) < d * ((y - lastMouseY (manualRotation s)) * sensitivity (manualRotation s))"
    "samples_exceed_y (sensitivity (manualRotation s)) (maxSpeed (manualRotation s)) d y rest"
    by (simp_all add: sample)
  note m1 = drag_step_tilt [OF Cons.prems(1,2,3,4) ex(1)]
  note l1 = drag_step_pointer(2) [OF Cons.prems(1,2)]
  have "targetRotationX (manualRotation (dragFrames delta rest ?s1)) =
     targetRotationX (manualRotation ?s1)
       + real (length rest) * (d * maxSpeed (manualRotation ?s1) * dampening (manualRotation ?s1))"
    using Cons.prems ex(2) by (intro Cons.IH) (simp_all add: l1)
  with m1 show ?case
    by (simp add: sample algebra_simps)
qed

lemma onMouseMove_models [simp]:
  "modelStates (onMouseMove x y s) = modelStates s"
  "activeModelId (onMouseMove x y s) = activeModelId s"
  "autoRotation (onMouseMove x y s) = autoRotation s"
  by (simp_all add: onMouseMove_def Let_def)

lemma fadeModel_rotation:
  "modelObject st = Some obj \<Longrightarrow>
   \<exists>obj'. modelObject (fadeModel delta st) = Some obj' \<and> rotation_x obj' = rotation_x obj
      \<and> rotation_y obj' = rotation_y obj \<and> rotation_z obj' = rotation_z obj"
  by (simp add: fadeModel_def Let_def)

lemma fadeModel_rots [simp]:
  "manualRot (fadeModel delta st) = manualRot st"
  "autoRot (fadeModel delta st) = autoRot st"
  by (simp_all add: fadeModel_def Let_def split: option.splits)

lemma update_while_dragging:
  assumes "isDragging (manualRotation s)"
  shows "modelStates (update delta now s) =
     (\<lambda>k. map_option (fadeModel delta)
        (modelStates (if manual_enabled (manualRotation s) then updateManualRotation delta s else s) k))"
  using assms
  by (simp add: update_def Let_def animateSpotlights_def updateManualRotation_def
      advanceManualRotation_def)

lemma updateManualRotation_active:
  assumes "manual_rotateActiveOnly (manualRotation s)"
    and "activeModelId s = Some a" and "a \<noteq> []"
    and "modelStates s a = Some st" and "modelObject st = Some obj"
  shows "modelStates (updateManualRotation delta s) a =
     Some (st\<lparr> modelObject := Some (obj
        \<lparr> rotation_x := baseRotationX (manualRot st)
             + currentRotationX (advanceManualRotation delta (manualRotation s)),
          rotation_y := baseRotationY (manualRot st)
             + currentRotationY (advanceManualRotation delta (manualRotation s)),
          rotation_z := baseRotationZ (manualRot st) \<rparr>) \<rparr>)"
proof -
  have r: "manual_rotateActiveOnly (advanceManualRotation delta (manualRotation s))"
    using assms(1) by (simp add: advanceManualRotation_def Let_def)
  show ?thesis
    using assms(2-5) r
    by (simp add: updateManualRotation_def applyManualRotation_def applyManualRotationToModel_def)
qed

lemma update_dragging_tilt:
  assumes "manual_enabled (manualRotation s)" and "isDragging (manualRotation s)"
    and "manual_rotateActiveOnly (manualRotation s)"
    and "activeModelId s = Some a" and "a \<noteq> []"
    and "modelStates s a = Some st" and "modelObject st \<noteq> None"
  shows "\<exists>st' obj'. modelStates (update delta now s) a = Some st' \<and> modelObject st' = Some obj'
      \<and> manualRot st' = manualRot st
      \<and> rotation_x obj' = baseRotationX (manualRot st)
           + currentRotationX (advanceManualRotation delta (manualRotation s))
      \<and> rotation_y obj' = baseRotationY (manualRot st)
           + currentRotationY (advanceManualRotation delta (manualRotation s))"
proof -
  from assms(7) obtain obj where o: "modelObject st = Some obj" by auto
  note u = updateManualRotation_active [OF assms(3,4,5,6) o, of delta]
  let ?st1 = "st\<lparr> modelObject := Some (obj
        \<lparr> rotation_x := baseRotationX (manualRot st)
             + currentRotationX (advanceManualRotation delta (manualRotation s)),
          rotation_y := baseRotationY (manualRot st)
             + currentRotationY (advanceManualRotation delta (manualRotation s)),
          rotation_z := baseRotationZ (manualRot st) \<rparr>) \<rparr>"
  have m: "modelStates (update delta now s) a = Some (fadeModel delta ?st1)"
    using assms(1) u by (simp add: update_while_dragging [OF assms(2)])
  from fadeModel_rotation [of ?st1 _ delta] obtain obj' where
    "modelObject (fadeModel delta ?st1) = Some obj'"
    "rotation_x obj' = baseRotationX (manualRot st)
             + currentRotationX (advanceManualRotation delta (manualRotation s))"
    "rotation_y obj' = baseRotationY (manualRot st)
             + currentRotationY (advanceManualRotation delta (manualRotation s))"
    by auto
  with m show ?thesis by auto
qed

lemma dragFrames_append:
  "dragFrames delta (xs @ ys) s = dragFrames delta ys (dragFrames delta xs s)"
  by (induction xs arbitrary: s) auto

lemma advance_full_lerp:
  "currentRotationX (advanceManualRotation (1 / 8) m) = targetRotationX (advanceManualRotation (1 / 8) m)"
  "currentRotationY (advanceManualRotation (1 / 8) m) = targetRotationY (advanceManualRotation (1 / 8) m)"
  by (simp_all add: advanceManualRotation_def Let_def lerp_def)

lemma advance_flags [simp]:
  "manual_enabled (advanceManualRotation delta m) = manual_enabled m"
  "isDragging (advanceManualRotation delta m) = isDragging m"
  "manual_rotateActiveOnly (advanceManualRotation delta m) = manual_rotateActiveOnly m"
  by (simp_all add: advanceManualRotation_def Let_def)

lemma onMouseMove_flags [simp]:
  "manual_enabled (manualRotation (onMouseMove x y s)) = manual_enabled (manualRotation s)"
  "isDragging (manualRotation (onMouseMove x y s)) = isDragging (manualRotation s)"
  "manual_rotateActiveOnly (manualRotation (onMouseMove x y s)) = manual_rotateActiveOnly (manualRotation s)"
  by (simp_all add: onMouseMove_def Let_def)

lemma drag_ready_step:
  assumes "drag_ready a base s"
  shows "drag_ready a base (update delta now (onMouseMove x y s))"
proof -
  from assms obtain st where st: "modelStates s a = Some st" "modelObject st \<noteq> None"
    "manualRot st = base" by (auto simp: drag_ready_def)
  from st(1) have "modelStates (onMouseMove x y s) a = Some st" by simp
  from update_fadeModel [OF this, of delta now] obtain st2 where
    "same_fade st st2" "modelStates (update delta now (onMouseMove x y s)) a = Some (fadeModel delta st2)"
    by blast
  with st(2,3) have "\<exists>st'. modelStates (update delta now (onMouseMove x y s)) a = Some st'
      \<and> modelObject st' \<noteq> None \<and> manualRot st' = base"
    by (auto simp: same_fade_def fadeModel_def Let_def split: option.splits)
  with assms show ?thesis
    by (simp add: drag_ready_def manualRotation_update update_active)
qed

lemma drag_ready_frames:
  "drag_ready a base s \<Longrightarrow> drag_ready a base (dragFrames delta samples s)"
proof (induction samples arbitrary: s)
  case Nil
  then show ?case by simp
next
  case (Cons sample rest)
  obtain now x y where "sample = (now, x, y)" by (cases sample) auto
  with Cons.IH [OF drag_ready_step [OF Cons.prems]] show ?case by simp
qed

lemma tilt_after_drag:
  assumes "drag_ready a base s" and "a \<noteq> []" and "samples \<noteq> []"
  shows "tiltOf (dragFrames (1 / 8) samples s) a =
     Some (baseRotationX base + targetRotationX (manualRotation (dragFrames (1 / 8) samples s)))"
proof -
  from assms(3) obtain rest now x y where sp: "samples = rest @ [(now, x, y)]"
    by (metis rev_exhaust prod_cases3)
  let ?p = "dragFrames (1 / 8) rest s"
  let ?q = "onMouseMove x y ?p"
  have rp: "drag_ready a base ?p" using assms(1) by (rule drag_ready_frames)
  then obtain st where st: "modelStates ?q a = Some st" "modelObject st \<noteq> None" "manualRot st = base"
    by (auto simp: drag_ready_def)
  from rp have f: "manual_enabled (manualRotation ?q)" "isDragging (manualRotation ?q)"
    "manual_rotateActiveOnly (manualRotation ?q)" "activeModelId ?q = Some a"
    by (simp_all add: drag_ready_def)
  from update_dragging_tilt [OF f assms(2) st(1,2), of "1 / 8" now] st(3) f(1)
  have "tiltOf (update (1 / 8) now ?q) a =
      Some (baseRotationX base + targetRotationX (manualRotation (update (1 / 8) now ?q)))"
    by (auto simp: tiltOf_def manualRotation_update advance_full_lerp)
  then show ?thesis by (simp add: sp dragFrames_append)
qed

lemma diagonal_drag_length [simp]: "length (diagonal_drag i n) = n"
  by (induction n arbitrary: i) auto

lemma diagonal_drag_exceeds_x:
  "samples_exceed_x (1 / 20) (1 / 20) 1 (10 * real i) (diagonal_drag i n)"
proof (induction n arbitrary: i)
  case 0
  show ?case by simp
next
  case (Suc n)
  have "(1 / 20 :: real) < 1 * ((10 * real (Suc i) - 10 * real i) * (1 / 20))" by simp
  with Suc [of "Suc i"] show ?case by (simp del: of_nat_Suc)
qed

lemma diagonal_drag_exceeds_y:
  "samples_exceed_y (1 / 20) (1 / 20) 1 (10 * real i) (diagonal_drag i n)"
proof (induction n arbitrary: i)
  case 0
  show ?case by simp
next
  case (Suc n)
  have "(1 / 20 :: real) < 1 * ((10 * real (Suc i) - 10 * real i) * (1 / 20))" by simp
  with Suc [of "Suc i"] show ?case by (simp del: of_nat_Suc)
qed

lemmas diagonal_drag_exceeds = diagonal_drag_exceeds_x diagonal_drag_exceeds_y

lemma horizontal_drag_length [simp]: "length (horizontal_drag i n) = n"
  by (induction n arbitrary: i) auto


lemma dragging_loader_rotation:
  "manualRotation dragging_loader =
     \<lparr> manual_enabled = True, sensitivity = 0.05, dampening = 0.95, maxSpeed = 0.05,
       isDragging = True, lastMouseX = 0, lastMouseY = 0, velocityX = 0, velocityY = 0,
       targetRotationX = 0, targetRotationY = 0, currentRotationX = 0,
       currentRotationY = 0, manual_rotateActiveOnly = True \<rparr>"
  by (simp add: dragging_loader_def onMouseDown_def gallery_of_three_def loading_defs
      activation_defs Let_def)

lemma dragging_loader_ready:
  "drag_ready ''a'' \<lparr> rotationX = 0, rotationY = 0, baseRotationX = 0, baseRotationY = 0,
      baseRotationZ = 0 \<rparr> dragging_loader"
  by (simp add: drag_ready_def dragging_loader_rotation)
     (simp add: dragging_loader_def onMouseDown_def gallery_of_three_def loading_defs
        activation_defs Let_def)

lemma dragging_loader_accumulates:
  "targetRotationY (manualRotation (dragFrames delta (diagonal_drag 0 n) dragging_loader))
     = real n * (19 / 400)
   \<and> targetRotationX (manualRotation (dragFrames delta (diagonal_drag 0 n) dragging_loader))
     = real n * (19 / 400)"
  using yaw_accumulates [of dragging_loader 1 "diagonal_drag 0 n" delta]
    tilt_accumulates [of dragging_loader 1 "diagonal_drag 0 n" delta]
    diagonal_drag_exceeds [of 0 n]
  by (simp add: dragging_loader_rotation)

text \<open>
  C4. The loader writes \<open>rotation.x = baseRotationX + currentRotationX\<close> with no clamp,
  and \<open>currentRotationX\<close> follows a target that every frame of a drag moves further. In
  the three-item gallery the active model starts with tilt 0; after a drag of 30 samples,
  each 10 pixels further down and right and each followed by a frame of 1/8 second, its
  tilt is 57/40 = 1.425 radians, more than 60 degrees.
\<close>

theorem C4_loader_tilt_exceeds_sixty_degrees:
  "tiltOf dragging_loader ''a'' = Some 0
   \<and> tiltOf (dragFrames (1 / 8) (diagonal_drag 0 30) dragging_loader) ''a'' = Some (57 / 40)
   \<and> pi / 3 < 57 / 40"
proof -
  have "diagonal_drag 0 30 \<noteq> []"
    by (metis diagonal_drag_length length_0_conv zero_neq_numeral)
  from tilt_after_drag [OF dragging_loader_ready _ this]
    dragging_loader_accumulates [of "1 / 8" 30]
  have "tiltOf (dragFrames (1 / 8) (diagonal_drag 0 30) dragging_loader) ''a'' = Some (57 / 40)"
    by simp
  moreover have "tiltOf dragging_loader ''a'' = Some 0"
    by (simp add: tiltOf_def dragging_loader_def onMouseDown_def gallery_of_three_def loading_defs
        activation_defs Let_def)
  moreover have "pi / 3 < 57 / 40" using pi_less_4 by simp
  ultimately show ?thesis by simp
qed



section \<open>What a clamped drag accumulates\<close>







section \<open>Idle rotation and dragging\<close>

lemma applyManualToModel_autoRot:
  "modelStates s k = Some st \<Longrightarrow>
   \<exists>st1. modelStates (applyManualRotationToModel k' s) k = Some st1 \<and> autoRot st1 = autoRot st
      \<and> (modelObject st1 = None \<longleftrightarrow> modelObject st = None)"
  by (auto simp: applyManualRotationToModel_def split: option.splits)

lemma updateManual_autoRot:
  assumes "modelStates s k = Some st"
  shows "\<exists>st1. modelStates (updateManualRotation delta s) k = Some st1 \<and> autoRot st1 = autoRot st
      \<and> (modelObject st1 = None \<longleftrightarrow> modelObject st = None)"
proof -
  let ?s = "s\<lparr> manualRotation := advanceManualRotation delta (manualRotation s) \<rparr>"
  have "modelStates ?s k = Some st" using assms by simp
  from applyManualToModel_autoRot [OF this] this show ?thesis
    unfolding updateManualRotation_def applyManualRotation_def
    by (auto split: option.splits)
qed

lemma applyManualToModel_others [simp]:
  "activeModelId (applyManualRotationToModel k s) = activeModelId s"
  "autoRotation (applyManualRotationToModel k s) = autoRotation s"
  by (simp_all add: applyManualRotationToModel_def split: option.splits)

lemma applyManual_others [simp]:
  "activeModelId (applyManualRotation s) = activeModelId s"
  "autoRotation (applyManualRotation s) = autoRotation s"
  by (simp_all add: applyManualRotation_def split: option.splits)

lemma updateManual_others [simp]:
  "activeModelId (updateManualRotation delta s) = activeModelId s"
  "autoRotation (updateManualRotation delta s) = autoRotation s"
  "manualRotation (updateManualRotation delta s) = advanceManualRotation delta (manualRotation s)"
  by (simp_all add: updateManualRotation_def)

lemma idle_resumes:
  assumes "\<not> isDragging (manualRotation s)" and "auto_enabled (autoRotation s)"
    and "auto_rotateActiveOnly (autoRotation s)"
    and "activeModelId s = Some a" and "a \<noteq> []"
    and "modelStates s a = Some st" and "modelObject st \<noteq> None"
  shows "\<exists>st' obj'. modelStates (update delta now s) a = Some st' \<and> modelObject st' = Some obj'
      \<and> auto_currentRotationY (autoRot st') =
          auto_currentRotationY (autoRot st) + speed (autoRotation s) * direction (autoRotation s) * delta
      \<and> rotation_y obj' = auto_baseRotationY (autoRot st) + auto_currentRotationY (autoRot st')
      \<and> rotation_x obj' = auto_baseRotationX (autoRot st)"
proof -
  define s1 where "s1 = (if manual_enabled (manualRotation s) then updateManualRotation delta s else s)"
  have "\<exists>st1. modelStates s1 a = Some st1 \<and> autoRot st1 = autoRot st
      \<and> (modelObject st1 = None \<longleftrightarrow> modelObject st = None)"
    using assms(6) updateManual_autoRot [OF assms(6), of delta]
    by (cases "manual_enabled (manualRotation s)") (simp_all add: s1_def)
  then obtain st1 obj1 where st1: "modelStates s1 a = Some st1" "autoRot st1 = autoRot st"
    "modelObject st1 = Some obj1" using assms(7) by auto
  have k: "activeModelId s1 = Some a" "autoRotation s1 = autoRotation s"
    "isDragging (manualRotation s1) = isDragging (manualRotation s)"
    using assms(4) by (simp_all add: s1_def)
  define y where "y = auto_currentRotationY (autoRot st)
      + speed (autoRotation s) * direction (autoRotation s) * delta"
  define st2 where "st2 = st1\<lparr> autoRot := (autoRot st1)\<lparr> auto_currentRotationY := y \<rparr>,
      modelObject := Some (obj1\<lparr> rotation_x := auto_baseRotationX (autoRot st1),
          rotation_y := auto_baseRotationY (autoRot st1) + y,
          rotation_z := auto_baseRotationZ (autoRot st1) \<rparr>) \<rparr>"
  have a2: "modelStates (updateAutoRotation delta s1) a = Some st2"
    using assms(3,5) st1 k
    by (simp add: updateAutoRotation_def applyAutoRotationToModel_def Let_def st2_def y_def)
  have "update delta now s = animateSpotlights delta now
      ((updateAutoRotation delta s1)\<lparr> modelStates :=
          (\<lambda>k. map_option (fadeModel delta) (modelStates (updateAutoRotation delta s1) k)) \<rparr>)"
    using assms(1,2) k unfolding update_def Let_def s1_def [symmetric] by simp
  then have m: "modelStates (update delta now s) a = Some (fadeModel delta st2)"
    using a2 by (simp add: animateSpotlights_def)
  from fadeModel_rotation [of st2 _ delta] obtain obj' where
    "modelObject (fadeModel delta st2) = Some obj'"
    "rotation_x obj' = auto_baseRotationX (autoRot st1)"
    "rotation_y obj' = auto_baseRotationY (autoRot st1) + y"
    by (auto simp: st2_def)
  with m st1(2) show ?thesis
    by (auto simp: st2_def y_def)
qed

lemma applyManualToModel_auto_commute:
  "applyManualRotationToModel k (s\<lparr> autoRotation := a \<rparr>) =
     (applyManualRotationToModel k s)\<lparr> autoRotation := a \<rparr>"
  by (simp add: applyManualRotationToModel_def split: option.splits)

lemma applyManual_auto_commute:
  "applyManualRotation (s\<lparr> autoRotation := a \<rparr>) = (applyManualRotation s)\<lparr> autoRotation := a \<rparr>"
  by (simp add: applyManualRotation_def applyManualToModel_auto_commute split: option.splits
      cong: option.case_cong if_cong)

lemma swap_rotation_updates:
  "s\<lparr> autoRotation := a, manualRotation := m \<rparr> = s\<lparr> manualRotation := m, autoRotation := a \<rparr>"
  by (cases s) simp

lemma updateManual_disable_commute:
  "updateManualRotation delta (disableAutoRotation s) = disableAutoRotation (updateManualRotation delta s)"
proof -
  let ?m = "advanceManualRotation delta (manualRotation s)"
  let ?a = "(autoRotation s)\<lparr> auto_enabled := False \<rparr>"
  have "updateManualRotation delta (disableAutoRotation s) =
      applyManualRotation ((s\<lparr> manualRotation := ?m \<rparr>)\<lparr> autoRotation := ?a \<rparr>)"
    by (simp add: updateManualRotation_def disableAutoRotation_def swap_rotation_updates)
  also have "\<dots> = (applyManualRotation (s\<lparr> manualRotation := ?m \<rparr>))\<lparr> autoRotation := ?a \<rparr>"
    by (rule applyManual_auto_commute)
  also have "\<dots> = disableAutoRotation (updateManualRotation delta s)"
    by (simp add: updateManualRotation_def disableAutoRotation_def)
  finally show ?thesis .
qed

lemma disableAutoRotation_fields [simp]:
  "manualRotation (disableAutoRotation s) = manualRotation s"
  "modelStates (disableAutoRotation s) = modelStates s"
  "auto_enabled (autoRotation (disableAutoRotation s)) = False"
  by (simp_all add: disableAutoRotation_def)

lemma dragging_suppresses_idle:
  assumes "isDragging (manualRotation s)"
  shows "update delta now s =
     (update delta now (disableAutoRotation s))\<lparr> autoRotation := autoRotation s \<rparr>"
proof -
  define s1 where "s1 = (if manual_enabled (manualRotation s) then updateManualRotation delta s else s)"
  have d: "isDragging (manualRotation s1)" "autoRotation s1 = autoRotation s"
    using assms by (simp_all add: s1_def)
  have l: "update delta now s = animateSpotlights delta now
      (s1\<lparr> modelStates := (\<lambda>k. map_option (fadeModel delta) (modelStates s1 k)) \<rparr>)"
    using d unfolding update_def Let_def s1_def [symmetric] by simp
  have s1': "(if manual_enabled (manualRotation (disableAutoRotation s))
      then updateManualRotation delta (disableAutoRotation s) else disableAutoRotation s)
      = disableAutoRotation s1"
    by (simp add: s1_def updateManual_disable_commute)
  have r: "update delta now (disableAutoRotation s) = animateSpotlights delta now
      ((disableAutoRotation s1)\<lparr> modelStates :=
         (\<lambda>k. map_option (fadeModel delta) (modelStates (disableAutoRotation s1) k)) \<rparr>)"
    unfolding update_def Let_def s1' by (simp add: disableAutoRotation_def)
  show ?thesis
    unfolding l r using d(2)
    by (simp add: animateSpotlights_def disableAutoRotation_def)
qed

lemma dragging_keeps_idle_angle:
  assumes "isDragging (manualRotation s)" and "modelStates s k = Some st"
  shows "idleAngle (update delta now s) k = Some (auto_currentRotationY (autoRot st))"
proof -
  have "\<exists>st1. modelStates (if manual_enabled (manualRotation s) then updateManualRotation delta s else s) k
        = Some st1 \<and> autoRot st1 = autoRot st"
    using assms(2) updateManual_autoRot [OF assms(2), of delta]
    by (cases "manual_enabled (manualRotation s)") auto
  then show ?thesis
    by (auto simp: idleAngle_def update_while_dragging [OF assms(1)])
qed

text \<open>
  While \<open>isDragging\<close> is set, a frame leaves the loader exactly as a frame with idle
  rotation switched off would, and the idle angle of every model is unchanged. In the
  first frame in which \<open>isDragging\<close> is clear again (idle rotation enabled, the active
  model in the scene) the idle angle of the active model advances by
  \<open>speed * direction * delta\<close> and the rotation of its scene object is set from the idle
  rotation alone, whatever the residual drag velocity is.
\<close>

lemma idle_rotation_gated_on_dragging_only:
  "(isDragging (manualRotation s) \<longrightarrow>
      update delta now s = (update delta now (disableAutoRotation s))\<lparr> autoRotation := autoRotation s \<rparr>
      \<and> (\<forall>k st. modelStates s k = Some st \<longrightarrow>
            idleAngle (update delta now s) k = Some (auto_currentRotationY (autoRot st))))
   \<and> (\<not> isDragging (manualRotation s) \<and> auto_enabled (autoRotation s)
        \<and> auto_rotateActiveOnly (autoRotation s) \<and> activeModelId s = Some a \<and> a \<noteq> []
        \<and> modelStates s a = Some st \<and> modelObject st \<noteq> None \<longrightarrow>
      (\<exists>st' obj'. modelStates (update delta now s) a = Some st' \<and> modelObject st' = Some obj'
         \<and> auto_currentRotationY (autoRot st') =
             auto_currentRotationY (autoRot st)
               + speed (autoRotation s) * direction (autoRotation s) * delta
         \<and> rotation_y obj' = auto_baseRotationY (autoRot st) + auto_currentRotationY (autoRot st')
         \<and> rotation_x obj' = auto_baseRotationX (autoRot st)))"
  using dragging_suppresses_idle [of s delta now] dragging_keeps_idle_angle [of s _ _ delta now]
    idle_resumes [of s a st delta now]
  by blast

text \<open>
  The source does intend a pause after a drag: \<open>Gallery3D.onModelInteract\<close> answers
  \<open>endInteraction\<close> with a timer commented "Wait 2 seconds before resuming
  auto-rotation". That timer acts on the camera rig only: it leaves the loader, and with
  it the idle rotation of the models, untouched. (After \<open>startInteraction\<close> has set the
  speed to 0 the rig's \<open>isAutoRotating\<close> is false, so the timer's callback does nothing
  at all.) And the drag handlers of the loader never call \<open>onModelInteract\<close>.
\<close>

lemma onModelInteract_leaves_loader:
  "modelLoader (onModelInteract_start g) = modelLoader g"
  "modelLoader (onModelInteract_end_timeout g) = modelLoader g"
  "onModelInteract_end_timeout (onModelInteract_start g) = onModelInteract_start g"
  by (simp_all add: onModelInteract_start_def onModelInteract_end_timeout_def setAutoRotateSpeed_def)

lemma mouse_handlers_models [simp]:
  "modelStates (onMouseUp s) = modelStates s"
  "activeModelId (onMouseUp s) = activeModelId s"
  "autoRotation (onMouseUp s) = autoRotation s"
  "modelStates (onMouseDown b x y s) = modelStates s"
  "activeModelId (onMouseDown b x y s) = activeModelId s"
  "autoRotation (onMouseDown b x y s) = autoRotation s"
  by (simp_all add: onMouseUp_def onMouseDown_def Let_def)

lemma released_loader_rotation:
  "manualRotation released_loader =
     \<lparr> manual_enabled = True, sensitivity = 0.05, dampening = 0.95, maxSpeed = 0.05,
       isDragging = False, lastMouseX = 100, lastMouseY = 100, velocityX = 0.05, velocityY = 0.05,
       targetRotationX = 0, targetRotationY = 0, currentRotationX = 0,
       currentRotationY = 0, manual_rotateActiveOnly = True \<rparr>"
  by (simp add: released_loader_def onMouseUp_def onMouseMove_def Let_def dragging_loader_rotation
      clamp_between_def)

lemma released_loader_idle:
  "autoRotation released_loader =
     \<lparr> auto_enabled = True, speed = 0.5, direction = - 1, auto_rotateActiveOnly = True \<rparr>"
  "activeModelId released_loader = Some ''a''"
  by (simp_all add: released_loader_def dragging_loader_def gallery_of_three_def loading_defs
      activation_defs Let_def)

lemma released_loader_model:
  "\<exists>st. modelStates released_loader ''a'' = Some st \<and> modelObject st \<noteq> None
      \<and> auto_currentRotationY (autoRot st) = 0 \<and> auto_baseRotationY (autoRot st) = 0"
  by (simp add: released_loader_def dragging_loader_def gallery_of_three_def loading_defs
      activation_defs Let_def)

lemma dragging_loader_model:
  "\<exists>st. modelStates dragging_loader ''a'' = Some st \<and> auto_currentRotationY (autoRot st) = 0"
  by (simp add: dragging_loader_def gallery_of_three_def loading_defs activation_defs Let_def)

text \<open>
  C6. The first half of the claim holds: during a drag the idle angle of the active
  model stays where it is (here at 0, over the frame that follows the pointer's move).
  The second half does not. In the three-item gallery the button goes down at (0, 0),
  the pointer moves to (100, 100), and the button is released with the drag velocity at
  its maximum 0.05. In the very next frame, 1/60 second long,
  the idle angle of the active model goes from 0 to -1/120 while the residual velocity is
  still 0.0475, and the yaw of the scene object is the idle angle: the rotation 19/3000
  that the coasting drag computes in the same frame is overwritten.
\<close>

theorem C6_idle_rotation_resumes_without_grace_period:
  "isDragging (manualRotation dragging_loader)
   \<and> idleAngle dragging_loader ''a'' = Some 0
   \<and> idleAngle (dragFrames (1 / 60) [(16, 100, 100)] dragging_loader) ''a'' = Some 0
   \<and> \<not> isDragging (manualRotation released_loader)
   \<and> maxSpeed (manualRotation released_loader) = 1 / 20
   \<and> velocityX (manualRotation released_loader) = 1 / 20
   \<and> idleAngle released_loader ''a'' = Some 0
   \<and> idleAngle (update (1 / 60) 32 released_loader) ''a'' = Some (- (1 / 120))
   \<and> velocityX (manualRotation (update (1 / 60) 32 released_loader)) = 19 / 400
   \<and> currentRotationY (manualRotation (update (1 / 60) 32 released_loader)) = 19 / 3000
   \<and> yawOf (update (1 / 60) 32 released_loader) ''a'' = Some (- (1 / 120))"
proof -
  from released_loader_model obtain st where
    st: "modelStates released_loader ''a'' = Some st" "modelObject st \<noteq> None"
      "auto_currentRotationY (autoRot st) = 0" "auto_baseRotationY (autoRot st) = 0" by blast
  from idle_resumes [OF _ _ _ released_loader_idle(2) _ st(1,2), of "1 / 60" 32]
  obtain st' obj' where r: "modelStates (update (1 / 60) 32 released_loader) ''a'' = Some st'"
    "modelObject st' = Some obj'"
    "auto_currentRotationY (autoRot st') =
       auto_currentRotationY (autoRot st)
         + speed (autoRotation released_loader) * direction (autoRotation released_loader) * (1 / 60)"
    "rotation_y obj' = auto_baseRotationY (autoRot st) + auto_currentRotationY (autoRot st')"
    by (auto simp: released_loader_rotation released_loader_idle)
  from r(3) st(3) have angle: "auto_currentRotationY (autoRot st') = - (1 / 120)"
    by (simp add: released_loader_idle)
  have i: "idleAngle (update (1 / 60) 32 released_loader) ''a'' = Some (- (1 / 120))"
    using r(1) angle by (simp add: idleAngle_def)
  have y: "yawOf (update (1 / 60) 32 released_loader) ''a'' = Some (- (1 / 120))"
    using r(1,2,4) angle st(4) by (simp add: yawOf_def)
  have v: "velocityX (manualRotation (update (1 / 60) 32 released_loader)) = 19 / 400"
    "currentRotationY (manualRotation (update (1 / 60) 32 released_loader)) = 19 / 3000"
    by (simp_all add: manualRotation_update released_loader_rotation advanceManualRotation_def
        Let_def lerp_def)
  from dragging_loader_model obtain sd where
    sd: "modelStates dragging_loader ''a'' = Some sd" "auto_currentRotationY (autoRot sd) = 0"
    by blast
  have dr: "isDragging (manualRotation (onMouseMove 100 100 dragging_loader))"
    by (simp add: dragging_loader_rotation)
  have sm: "modelStates (onMouseMove 100 100 dragging_loader) ''a'' = Some sd"
    using sd(1) by simp
  have k: "idleAngle (dragFrames (1 / 60) [(16, 100, 100)] dragging_loader) ''a'' = Some 0"
    using dragging_keeps_idle_angle [OF dr sm, of "1 / 60" 16] sd(2) by simp
  from i y v k st sd show ?thesis
    by (simp add: released_loader_rotation dragging_loader_rotation idleAngle_def)
qed



section \<open>The clamp of the direct rotation\<close>

text \<open>
  \<open>MouseInteraction.rotateActiveModel\<close>, the other implementation of the drag, does
  clamp the tilt to 60 degrees either way and leaves the yaw free.
\<close>

lemma clamp_between_range:
  "lo \<le> hi \<Longrightarrow> lo \<le> clamp_between lo hi v \<and> clamp_between lo hi v \<le> hi"
  by (auto simp: clamp_between_def)

lemma rotateActiveModel_tilt_clamped:
  assumes "mi_activeModel mi = Some a" and "a \<noteq> []"
    and "modelStates s a = Some st" and "modelObject st = Some obj"
  shows "\<exists>st' obj'. modelStates (rotateActiveModel deltaX deltaY mi s) a = Some st'
      \<and> modelObject st' = Some obj'
      \<and> - (pi / 3) \<le> rotation_x obj' \<and> rotation_x obj' \<le> pi / 3
      \<and> rotation_y obj' = rotation_y obj + deltaX * mi_rotationSpeed mi"
proof -
  have "- (pi / 3) \<le> pi / 3" using pi_gt_zero by simp
  from clamp_between_range [OF this, of "rotation_x obj + deltaY * mi_rotationSpeed mi"] assms
  show ?thesis by (simp add: rotateActiveModel_def)
qed

end
